theory Spec2Isabelle
  imports Main "HOL-Library.Sublist"
begin

section \<open>JavaScript strings and exceptions\<close>

text \<open>
  A JavaScript string is a sequence of UTF-16 code units; a code unit is modelled by its
  numeric value.  \<open>js\<close> embeds an ASCII literal.  A function of the source that can throw
  returns \<open>js_error + 'a\<close>, \<open>Inl\<close> being the exception that reaches the caller.
\<close>

type_synonym code_unit = nat
type_synonym jsstring = "code_unit list"

abbreviation CU :: "char \<Rightarrow> code_unit" where
  "CU c \<equiv> of_char c"

definition js :: "string \<Rightarrow> jsstring" where
  "js s = map of_char s"

abbreviation BSL :: code_unit where
  "BSL \<equiv> 0x5C"

datatype js_error = SyntaxError | URIError | TypeError | Unsupported

text \<open>
  \<open>Unsupported\<close> is not a JavaScript exception: \<open>RegExp\<close> below returns it for the
  pattern syntax this development does not model (lookbehind, named groups, modifiers).
\<close>

definition bind_err :: "js_error + 'a \<Rightarrow> ('a \<Rightarrow> js_error + 'b) \<Rightarrow> js_error + 'b" where
  "bind_err x f = (case x of Inl e \<Rightarrow> Inl e | Inr v \<Rightarrow> f v)"

definition try_catch :: "js_error + 'a \<Rightarrow> (js_error + 'a) \<Rightarrow> js_error + 'a" where
  "try_catch body handler = (case body of Inl e \<Rightarrow> handler | Inr v \<Rightarrow> Inr v)"

text \<open>White space as \<open>String.prototype.trim\<close> and the class \<open>\s\<close> see it
  (WhiteSpace and LineTerminator of ECMAScript).\<close>

definition is_ws :: "code_unit \<Rightarrow> bool" where
  "is_ws c \<longleftrightarrow> (9 \<le> c \<and> c \<le> 13) \<or> c = 0x20 \<or> c = 0xA0 \<or> c = 0x1680
     \<or> (0x2000 \<le> c \<and> c \<le> 0x200A) \<or> c = 0x2028 \<or> c = 0x2029 \<or> c = 0x202F
     \<or> c = 0x205F \<or> c = 0x3000 \<or> c = 0xFEFF"

definition trim :: "jsstring \<Rightarrow> jsstring" where
  "trim s = rev (dropWhile is_ws (rev (dropWhile is_ws s)))"

definition is_digit :: "code_unit \<Rightarrow> bool" where
  "is_digit c \<longleftrightarrow> 0x30 \<le> c \<and> c \<le> 0x39"

definition is_word :: "code_unit \<Rightarrow> bool" where
  "is_word c \<longleftrightarrow> (0x61 \<le> c \<and> c \<le> 0x7A) \<or> (0x41 \<le> c \<and> c \<le> 0x5A) \<or> is_digit c \<or> c = 0x5F"

definition is_letter :: "code_unit \<Rightarrow> bool" where
  "is_letter c \<longleftrightarrow> (0x61 \<le> c \<and> c \<le> 0x7A) \<or> (0x41 \<le> c \<and> c \<le> 0x5A)"

definition is_octal :: "code_unit \<Rightarrow> bool" where
  "is_octal c \<longleftrightarrow> 0x30 \<le> c \<and> c \<le> 0x37"

definition is_line_terminator :: "code_unit \<Rightarrow> bool" where
  "is_line_terminator c \<longleftrightarrow> c = 0x0A \<or> c = 0x0D \<or> c = 0x2028 \<or> c = 0x2029"

definition hexval :: "code_unit \<Rightarrow> nat option" where
  "hexval c = (if 0x30 \<le> c \<and> c \<le> 0x39 then Some (c - 0x30)
     else if 0x41 \<le> c \<and> c \<le> 0x46 then Some (c - 0x41 + 10)
     else if 0x61 \<le> c \<and> c \<le> 0x66 then Some (c - 0x61 + 10)
     else None)"

fun hexvalue :: "jsstring \<Rightarrow> nat option" where
  "hexvalue [] = Some 0"
| "hexvalue (c # cs) =
     (case hexval c of None \<Rightarrow> None
      | Some v \<Rightarrow> (case hexvalue cs of None \<Rightarrow> None | Some w \<Rightarrow> Some (v * 16 ^ length cs + w)))"

section \<open>decodeURIComponent (ECMAScript Decode with an empty preserved set)\<close>

fun take_continuation :: "nat \<Rightarrow> jsstring \<Rightarrow> (nat list \<times> jsstring) option" where
  "take_continuation 0 s = Some ([], s)"
| "take_continuation (Suc n) (p # a # b # r) =
     (if p = CU CHR ''%'' then
        (case hexvalue [a, b] of None \<Rightarrow> None
         | Some v \<Rightarrow> (case take_continuation n r of None \<Rightarrow> None
                      | Some (os, r') \<Rightarrow> Some (v # os, r')))
      else None)"
| "take_continuation (Suc n) s = None"

definition is_continuation :: "nat \<Rightarrow> bool" where
  "is_continuation b \<longleftrightarrow> 0x80 \<le> b \<and> b \<le> 0xBF"

text \<open>The code point of a well-formed UTF-8 sequence: continuation bytes in range, no
  overlong form, no surrogate, at most U+10FFFF.\<close>

definition utf8_code_point :: "nat list \<Rightarrow> nat option" where
  "utf8_code_point octets =
     (case octets of
        [b0, b1] \<Rightarrow>
          (let v = (b0 - 0xC0) * 0x40 + (b1 - 0x80)
           in if is_continuation b1 \<and> 0x80 \<le> v then Some v else None)
      | [b0, b1, b2] \<Rightarrow>
          (let v = (b0 - 0xE0) * 0x1000 + (b1 - 0x80) * 0x40 + (b2 - 0x80)
           in if is_continuation b1 \<and> is_continuation b2 \<and> 0x800 \<le> v
                 \<and> \<not> (0xD800 \<le> v \<and> v \<le> 0xDFFF) then Some v else None)
      | [b0, b1, b2, b3] \<Rightarrow>
          (let v = (b0 - 0xF0) * 0x40000 + (b1 - 0x80) * 0x1000 + (b2 - 0x80) * 0x40 + (b3 - 0x80)
           in if is_continuation b1 \<and> is_continuation b2 \<and> is_continuation b3
                 \<and> 0x10000 \<le> v \<and> v \<le> 0x10FFFF then Some v else None)
      | _ \<Rightarrow> None)"

definition utf16_encode :: "nat \<Rightarrow> jsstring" where
  "utf16_encode v =
     (if v < 0x10000 then [v]
      else [0xD800 + (v - 0x10000) div 0x400, 0xDC00 + (v - 0x10000) mod 0x400])"

definition leading_ones :: "nat \<Rightarrow> nat" where
  "leading_ones b =
     (if b < 0x80 then 0 else if b < 0xC0 then 1 else if b < 0xE0 then 2
      else if b < 0xF0 then 3 else if b < 0xF8 then 4 else 5)"

lemma take_continuation_suffix:
  "case take_continuation n s of None \<Rightarrow> True | Some (os, r) \<Rightarrow> length r \<le> length s"
  by (induction n s rule: take_continuation.induct) (auto split: option.splits)

lemma take_continuation_length:
  "take_continuation n s = Some (os, r) \<Longrightarrow> length r \<le> length s"
  using take_continuation_suffix [where n = n and s = s] by simp

function decodeURIComponent :: "jsstring \<Rightarrow> js_error + jsstring" where
  "decodeURIComponent [] = Inr []"
| "decodeURIComponent (c # cs) =
     (if c \<noteq> CU CHR ''%'' then bind_err (decodeURIComponent cs) (\<lambda>r. Inr (c # r))
      else (case cs of
              a # b # r \<Rightarrow>
                (case hexvalue [a, b] of
                   None \<Rightarrow> Inl URIError
                 | Some B \<Rightarrow>
                     if leading_ones B = 0 then bind_err (decodeURIComponent r) (\<lambda>r'. Inr (B # r'))
                     else if leading_ones B = 1 \<or> 4 < leading_ones B then Inl URIError
                     else (case take_continuation (leading_ones B - 1) r of
                             None \<Rightarrow> Inl URIError
                           | Some (os, r') \<Rightarrow>
                               (case utf8_code_point (B # os) of
                                  None \<Rightarrow> Inl URIError
                                | Some v \<Rightarrow>
                                    bind_err (decodeURIComponent r') (\<lambda>r''. Inr (utf16_encode v @ r'')))))
            | _ \<Rightarrow> Inl URIError))"
  by pat_completeness auto
termination
  by (relation "measure length") (auto dest: take_continuation_length)

section \<open>The string helpers of the source\<close>

text \<open>\<open>str.replace(/\+/g, ' ')\<close>\<close>

definition plusToSpace :: "jsstring \<Rightarrow> jsstring" where
  "plusToSpace str = map (\<lambda>c. if c = CU CHR ''+'' then CU CHR '' '' else c) str"

text \<open>
  \<open>decodeUrlString\<close>: the \<open>try\<close> block replaces and decodes, the \<open>catch\<close> block returns
  the replaced string.
\<close>

definition decodeUrlString :: "jsstring \<Rightarrow> js_error + jsstring" where
  "decodeUrlString str =
     try_catch (decodeURIComponent (plusToSpace str)) (Inr (plusToSpace str))"

text \<open>The class \<open>[.+?^${}()|[\]\\]\<close> of \<open>escapeDomainPattern\<close>.\<close>

definition is_regex_special :: "code_unit \<Rightarrow> bool" where
  "is_regex_special c \<longleftrightarrow> c \<in> set (js ''.+?^${}()|[]'') \<or> c = BSL"

text \<open>
  \<open>escapeDomainPattern\<close>: the first \<open>replace\<close> puts a backslash before every special
  character (\<open>'\\$&'\<close>: a backslash and the matched text), the second turns every \<open>*\<close>
  into \<open>.*\<close>.
\<close>

definition escapeSpecial :: "jsstring \<Rightarrow> jsstring" where
  "escapeSpecial domain = concat (map (\<lambda>c. if is_regex_special c then [BSL, c] else [c]) domain)"

definition expandWildcards :: "jsstring \<Rightarrow> jsstring" where
  "expandWildcards s = concat (map (\<lambda>c. if c = CU CHR ''*'' then js ''.*'' else [c]) s)"

definition escapeDomainPattern :: "jsstring \<Rightarrow> jsstring" where
  "escapeDomainPattern domain = expandWildcards (escapeSpecial domain)"

section \<open>Regular expressions: abstract syntax\<close>

text \<open>
  The patterns \<open>matchPattern\<close> hands to \<open>new RegExp\<close> are built from user text, so the
  constructor (parsing, with its SyntaxError) and the matcher are modelled: ECMAScript
  pattern syntax without flags, with the Annex B extensions that browsers implement.
\<close>

datatype class_escape = Digit | Space | Word

datatype class_item = CChar code_unit | CRange code_unit code_unit | CEsc class_escape bool

datatype regex =
    Empty
  | Chr code_unit
  | Dot
  | Cls bool "class_item list"
  | Seq regex regex
  | Alt regex regex
  | Grp nat regex
  | Rep regex nat "nat option" bool
  | Bol
  | Eol
  | WordB bool
  | Look bool regex
  | BackRef nat

type_synonym quantifier = "nat \<times> nat option \<times> bool"

datatype gkind = Capture nat | NonCapture | LookAhead bool

datatype token = TTerm regex | TOpen gkind | TClose "quantifier option" | TBar

datatype regexp = RegExpObj (ncap: nat) (ast: regex)

section \<open>Regular expressions: the constructor\<close>

definition decimal :: "jsstring \<Rightarrow> nat" where
  "decimal ds = foldl (\<lambda>a d. a * 10 + (d - 0x30)) 0 ds"

text \<open>LegacyOctalEscapeSequence; the argument starts with an octal digit.  The result
  is the code unit and the number of characters read.\<close>

definition legacyOctal :: "jsstring \<Rightarrow> code_unit \<times> nat" where
  "legacyOctal cs =
     (case cs of
        [] \<Rightarrow> (0, 0)
      | d1 # r1 \<Rightarrow>
          (case r1 of
             [] \<Rightarrow> (d1 - 0x30, 1)
           | d2 # r2 \<Rightarrow>
               if \<not> is_octal d2 then (d1 - 0x30, 1)
               else (case r2 of
                       [] \<Rightarrow> ((d1 - 0x30) * 8 + (d2 - 0x30), 2)
                     | d3 # _ \<Rightarrow>
                         if d1 \<le> 0x33 \<and> is_octal d3
                         then ((d1 - 0x30) * 64 + (d2 - 0x30) * 8 + (d3 - 0x30), 3)
                         else ((d1 - 0x30) * 8 + (d2 - 0x30), 2))))"

text \<open>CharacterEscape after the backslash: the escape character \<open>c\<close> and what follows
  it.  The result is the code unit and the number of characters read, \<open>c\<close> included.\<close>

definition charEscape :: "code_unit \<Rightarrow> jsstring \<Rightarrow> code_unit \<times> nat" where
  "charEscape c r =
     (if c = CU CHR ''f'' then (0x0C, 1)
      else if c = CU CHR ''n'' then (0x0A, 1)
      else if c = CU CHR ''r'' then (0x0D, 1)
      else if c = CU CHR ''t'' then (0x09, 1)
      else if c = CU CHR ''v'' then (0x0B, 1)
      else if is_octal c then legacyOctal (c # r)
      else if c = CU CHR ''x'' then
        (case r of
           a # b # _ \<Rightarrow> (case hexvalue [a, b] of Some v \<Rightarrow> (v, 3) | None \<Rightarrow> (c, 1))
         | _ \<Rightarrow> (c, 1))
      else if c = CU CHR ''u'' then
        (case r of
           a # b # d # e # _ \<Rightarrow> (case hexvalue [a, b, d, e] of Some v \<Rightarrow> (v, 5) | None \<Rightarrow> (c, 1))
         | _ \<Rightarrow> (c, 1))
      else (c, 1))"

definition classEscape :: "code_unit \<Rightarrow> class_item option" where
  "classEscape c =
     (if c = CU CHR ''d'' then Some (CEsc Digit True)
      else if c = CU CHR ''D'' then Some (CEsc Digit False)
      else if c = CU CHR ''s'' then Some (CEsc Space True)
      else if c = CU CHR ''S'' then Some (CEsc Space False)
      else if c = CU CHR ''w'' then Some (CEsc Word True)
      else if c = CU CHR ''W'' then Some (CEsc Word False)
      else None)"

text \<open>AtomEscape: what follows a backslash outside a class.  \<open>n\<close> is the number of
  capturing groups of the whole pattern: a decimal escape is a back reference only up to
  it.  \<open>\c\<close> without a letter leaves the backslash as a literal and reads nothing.\<close>

definition parseAtomEscape :: "nat \<Rightarrow> jsstring \<Rightarrow> js_error + (regex \<times> nat)" where
  "parseAtomEscape n cs =
     (case cs of
        [] \<Rightarrow> Inl SyntaxError
      | c # r \<Rightarrow>
          (case classEscape c of
             Some i \<Rightarrow> Inr (Cls False [i], 1)
           | None \<Rightarrow>
               if c = CU CHR ''b'' then Inr (WordB True, 1)
               else if c = CU CHR ''B'' then Inr (WordB False, 1)
               else if 0x31 \<le> c \<and> c \<le> 0x39 \<and> decimal (takeWhile is_digit cs) \<le> n
                 then Inr (BackRef (decimal (takeWhile is_digit cs)), length (takeWhile is_digit cs))
               else if c = CU CHR ''c'' then
                 (case r of
                    [] \<Rightarrow> Inr (Chr BSL, 0)
                  | l # _ \<Rightarrow> if is_letter l then Inr (Chr (l mod 32), 2) else Inr (Chr BSL, 0))
               else (case charEscape c r of (v, k) \<Rightarrow> Inr (Chr v, k))))"

text \<open>ClassAtom: one member of a class, from a non-empty rest of the pattern.\<close>

definition parseClassAtom :: "jsstring \<Rightarrow> js_error + (class_item \<times> nat)" where
  "parseClassAtom cs =
     (case cs of
        [] \<Rightarrow> Inl SyntaxError
      | c # r \<Rightarrow>
          if c \<noteq> BSL then Inr (CChar c, 1)
          else (case r of
                  [] \<Rightarrow> Inl SyntaxError
                | e # r' \<Rightarrow>
                    (case classEscape e of
                       Some i \<Rightarrow> Inr (i, 2)
                     | None \<Rightarrow>
                         if e = CU CHR ''b'' then Inr (CChar 0x08, 2)
                         else if e = CU CHR ''c'' then
                           (case r' of
                              [] \<Rightarrow> Inr (CChar BSL, 1)
                            | l # _ \<Rightarrow>
                                if is_letter l \<or> is_digit l \<or> l = CU CHR ''_''
                                then Inr (CChar (l mod 32), 3) else Inr (CChar BSL, 1))
                         else (case charEscape e r' of (v, k) \<Rightarrow> Inr (CChar v, Suc k)))))"

definition mkRange :: "class_item \<Rightarrow> class_item \<Rightarrow> js_error + class_item list" where
  "mkRange a b =
     (case (a, b) of
        (CChar x, CChar y) \<Rightarrow> if x \<le> y then Inr [CRange x y] else Inl SyntaxError
      | _ \<Rightarrow> Inr [a, CChar (CU CHR ''-''), b])"

lemma parseClassAtom_pos: "parseClassAtom cs = Inr (a, k) \<Longrightarrow> 0 < k"
  by (auto simp: parseClassAtom_def split: list.splits if_splits option.splits prod.splits)

lemma parseClassAtom_drop:
  "parseClassAtom (c # cs) = Inr (a, k) \<Longrightarrow> drop k (c # cs) = ys \<Longrightarrow> length ys \<le> length cs"
  by (cases k) (auto dest: parseClassAtom_pos)

text \<open>ClassRanges up to the closing bracket; the number read includes the bracket.\<close>

function classItems :: "jsstring \<Rightarrow> js_error + (class_item list \<times> nat)" where
  "classItems [] = Inl SyntaxError"
| "classItems (c # cs) =
     (if c = CU CHR '']'' then Inr ([], 1)
      else
        (case parseClassAtom (c # cs) of
           Inl e \<Rightarrow> Inl e
         | Inr (a, k) \<Rightarrow>
             (case drop k (c # cs) of
                dash # x # r \<Rightarrow>
                  if dash = CU CHR ''-'' \<and> x \<noteq> CU CHR '']'' then
                    (case parseClassAtom (x # r) of
                       Inl e \<Rightarrow> Inl e
                     | Inr (b, k2) \<Rightarrow>
                         (case mkRange a b of
                            Inl e \<Rightarrow> Inl e
                          | Inr items \<Rightarrow>
                              (case classItems (drop k2 (x # r)) of
                                 Inl e \<Rightarrow> Inl e
                               | Inr (is, n) \<Rightarrow> Inr (items @ is, k + 1 + k2 + n))))
                  else
                    (case classItems (dash # x # r) of
                       Inl e \<Rightarrow> Inl e
                     | Inr (is, n) \<Rightarrow> Inr (a # is, k + n))
              | rest \<Rightarrow>
                  (case classItems rest of
                     Inl e \<Rightarrow> Inl e
                   | Inr (is, n) \<Rightarrow> Inr (a # is, k + n)))))"
  by pat_completeness auto
termination
  apply (relation "measure length")
  by (auto dest: parseClassAtom_drop)

text \<open>CharacterClass after the opening bracket.\<close>

definition parseClass :: "jsstring \<Rightarrow> js_error + (regex \<times> nat)" where
  "parseClass cs =
     (case cs of
        [] \<Rightarrow> Inl SyntaxError
      | c # r \<Rightarrow>
          if c = CU CHR ''^'' then
            (case classItems r of Inl e \<Rightarrow> Inl e | Inr (is, n) \<Rightarrow> Inr (Cls True is, Suc n))
          else
            (case classItems cs of Inl e \<Rightarrow> Inl e | Inr (is, n) \<Rightarrow> Inr (Cls False is, n)))"

text \<open>
  A braced quantifier after the opening brace: \<open>{n}\<close>, \<open>{n,}\<close> or \<open>{n,m}\<close>.  Text that is
  not of this form is no quantifier (the brace is then an ordinary character); bounds out
  of order are a SyntaxError.  The number read includes the closing brace.
\<close>

definition parseBraces :: "jsstring \<Rightarrow> js_error + ((nat \<times> nat option) \<times> nat) option" where
  "parseBraces cs =
     (let ds1 = takeWhile is_digit cs; r1 = dropWhile is_digit cs
      in if ds1 = [] then Inr None
         else (case r1 of
                 [] \<Rightarrow> Inr None
               | c # r2 \<Rightarrow>
                   if c = CU CHR ''}'' then
                     Inr (Some ((decimal ds1, Some (decimal ds1)), Suc (length ds1)))
                   else if c = CU CHR '','' then
                     (let ds2 = takeWhile is_digit r2; r3 = dropWhile is_digit r2
                      in (case r3 of
                            [] \<Rightarrow> Inr None
                          | c' # _ \<Rightarrow>
                              if c' \<noteq> CU CHR ''}'' then Inr None
                              else if ds2 = [] then
                                Inr (Some ((decimal ds1, None), length ds1 + 2))
                              else if decimal ds2 < decimal ds1 then Inl SyntaxError
                              else Inr (Some ((decimal ds1, Some (decimal ds2)),
                                              length ds1 + length ds2 + 2))))
                   else Inr None))"

definition parseQuantPrefix :: "jsstring \<Rightarrow> js_error + ((nat \<times> nat option) \<times> nat) option" where
  "parseQuantPrefix cs =
     (case cs of
        [] \<Rightarrow> Inr None
      | c # r \<Rightarrow>
          if c = CU CHR ''*'' then Inr (Some ((0, None), 1))
          else if c = CU CHR ''+'' then Inr (Some ((1, None), 1))
          else if c = CU CHR ''?'' then Inr (Some ((0, Some 1), 1))
          else if c = CU CHR ''{'' then
            (case parseBraces r of
               Inl e \<Rightarrow> Inl e
             | Inr None \<Rightarrow> Inr None
             | Inr (Some (q, k)) \<Rightarrow> Inr (Some (q, Suc k)))
          else Inr None)"

text \<open>An optional quantifier, with its optional \<open>?\<close> for a lazy one, and the number of
  characters read.\<close>

definition parseQuant :: "jsstring \<Rightarrow> js_error + (quantifier option \<times> nat)" where
  "parseQuant cs =
     (case parseQuantPrefix cs of
        Inl e \<Rightarrow> Inl e
      | Inr None \<Rightarrow> Inr (None, 0)
      | Inr (Some ((mn, mx), k)) \<Rightarrow>
          (case drop k cs of
             [] \<Rightarrow> Inr (Some (mn, mx, True), k)
           | c # _ \<Rightarrow>
               if c = CU CHR ''?'' then Inr (Some (mn, mx, False), Suc k)
               else Inr (Some (mn, mx, True), k)))"

definition applyq :: "quantifier option \<Rightarrow> regex \<Rightarrow> regex" where
  "applyq q r = (case q of None \<Rightarrow> r | Some (mn, mx, g) \<Rightarrow> Rep r mn mx g)"

text \<open>An atom \<open>r\<close> that ended \<open>k\<close> characters into \<open>cs\<close>, with the quantifier that may
  follow it.\<close>

definition withQuant :: "regex \<Rightarrow> nat \<Rightarrow> jsstring \<Rightarrow> nat \<Rightarrow> js_error + (token \<times> nat \<times> nat)" where
  "withQuant r k cs g =
     (case parseQuant (drop k cs) of
        Inl e \<Rightarrow> Inl e
      | Inr (q, j) \<Rightarrow> Inr (TTerm (applyq q r), g, k + j))"

text \<open>
  One step of the parser at character \<open>c\<close> followed by \<open>cs\<close>: the token, the index the
  next capturing group gets, and the number of characters of \<open>cs\<close> read.  \<open>n\<close> is the
  number of capturing groups of the pattern, \<open>g\<close> the index of the next one.  A quantifier
  where a term must start has nothing to repeat.
\<close>

definition lexTerm :: "nat \<Rightarrow> nat \<Rightarrow> code_unit \<Rightarrow> jsstring \<Rightarrow> js_error + (token \<times> nat \<times> nat)" where
  "lexTerm n g c cs =
     (if c = CU CHR ''|'' then Inr (TBar, g, 0)
      else if c = CU CHR '')'' then
        (case parseQuant cs of Inl e \<Rightarrow> Inl e | Inr (q, j) \<Rightarrow> Inr (TClose q, g, j))
      else if c = CU CHR ''('' then
        (case cs of
           [] \<Rightarrow> Inr (TOpen (Capture g), Suc g, 0)
         | q # r \<Rightarrow>
             if q \<noteq> CU CHR ''?'' then Inr (TOpen (Capture g), Suc g, 0)
             else (case r of
                     [] \<Rightarrow> Inl SyntaxError
                   | x # _ \<Rightarrow>
                       if x = CU CHR '':'' then Inr (TOpen NonCapture, g, 2)
                       else if x = CU CHR ''='' then Inr (TOpen (LookAhead True), g, 2)
                       else if x = CU CHR ''!'' then Inr (TOpen (LookAhead False), g, 2)
                       else if x \<in> set (js ''<ims-'') then Inl Unsupported
                       else Inl SyntaxError))
      else if c = CU CHR ''*'' \<or> c = CU CHR ''+'' \<or> c = CU CHR ''?'' then Inl SyntaxError
      else if c = CU CHR ''{'' then
        (case parseBraces cs of
           Inl e \<Rightarrow> Inl e
         | Inr (Some _) \<Rightarrow> Inl SyntaxError
         | Inr None \<Rightarrow> withQuant (Chr c) 0 cs g)
      else if c = CU CHR ''^'' then Inr (TTerm Bol, g, 0)
      else if c = CU CHR ''$'' then Inr (TTerm Eol, g, 0)
      else if c = BSL then
        (case parseAtomEscape n cs of
           Inl e \<Rightarrow> Inl e
         | Inr (r, k) \<Rightarrow>
             (case r of WordB _ \<Rightarrow> Inr (TTerm r, g, k) | _ \<Rightarrow> withQuant r k cs g))
      else if c = CU CHR ''['' then
        (case parseClass cs of Inl e \<Rightarrow> Inl e | Inr (r, k) \<Rightarrow> withQuant r k cs g)
      else if c = CU CHR ''.'' then withQuant Dot 0 cs g
      else withQuant (Chr c) 0 cs g)"

function tokenize :: "nat \<Rightarrow> nat \<Rightarrow> jsstring \<Rightarrow> js_error + token list" where
  "tokenize n g [] = Inr []"
| "tokenize n g (c # cs) =
     (case lexTerm n g c cs of
        Inl e \<Rightarrow> Inl e
      | Inr (t, g', k) \<Rightarrow>
          (case tokenize n g' (drop k cs) of Inl e \<Rightarrow> Inl e | Inr ts \<Rightarrow> Inr (t # ts)))"
  by pat_completeness auto
termination
  by (relation "measure (\<lambda>(n, g, cs). length cs)") auto

text \<open>The number of capturing groups: left parentheses that are neither escaped, nor
  inside a class, nor followed by \<open>?\<close>.\<close>

fun countGroups :: "bool \<Rightarrow> jsstring \<Rightarrow> nat" where
  "countGroups inClass [] = 0"
| "countGroups inClass [c] = (if \<not> inClass \<and> c = CU CHR ''('' then 1 else 0)"
| "countGroups inClass (c # d # cs) =
     (if c = BSL then countGroups inClass cs
      else if inClass then countGroups (c \<noteq> CU CHR '']'') (d # cs)
      else if c = CU CHR ''['' then countGroups True (d # cs)
      else if c = CU CHR ''('' \<and> d \<noteq> CU CHR ''?'' then Suc (countGroups False (d # cs))
      else countGroups False (d # cs))"

text \<open>
  Assembling the tokens: \<open>cur\<close> holds the terms of the current alternative and \<open>alts\<close> the
  finished alternatives of the current group, both latest first; \<open>stack\<close> holds, for each
  open group, its kind and the \<open>alts\<close> and \<open>cur\<close> of the group around it.
\<close>

definition mkSeq :: "regex list \<Rightarrow> regex" where
  "mkSeq cur = foldr Seq (rev cur) Empty"

fun mkAlts :: "regex list \<Rightarrow> regex" where
  "mkAlts [] = Empty"
| "mkAlts [a] = a"
| "mkAlts (a # as) = Alt a (mkAlts as)"

definition mkDisjunction :: "regex list \<Rightarrow> regex list \<Rightarrow> regex" where
  "mkDisjunction alts cur = mkAlts (rev (mkSeq cur # alts))"

definition wrapGroup :: "gkind \<Rightarrow> regex \<Rightarrow> regex" where
  "wrapGroup k body =
     (case k of Capture i \<Rightarrow> Grp i body | NonCapture \<Rightarrow> body | LookAhead b \<Rightarrow> Look b body)"

fun build :: "token list \<Rightarrow> (gkind \<times> regex list \<times> regex list) list \<Rightarrow> regex list \<Rightarrow> regex list
    \<Rightarrow> js_error + regex" where
  "build [] stack alts cur =
     (if stack = [] then Inr (mkDisjunction alts cur) else Inl SyntaxError)"
| "build (TTerm r # ts) stack alts cur = build ts stack alts (r # cur)"
| "build (TBar # ts) stack alts cur = build ts stack (mkSeq cur # alts) []"
| "build (TOpen k # ts) stack alts cur = build ts ((k, alts, cur) # stack) [] []"
| "build (TClose q # ts) stack alts cur =
     (case stack of
        [] \<Rightarrow> Inl SyntaxError
      | (k, alts', cur') # stack' \<Rightarrow>
          build ts stack' alts' (applyq q (wrapGroup k (mkDisjunction alts cur)) # cur'))"

text \<open>\<open>new RegExp(pattern)\<close>, without flags.\<close>

definition RegExp :: "jsstring \<Rightarrow> js_error + regexp" where
  "RegExp pattern =
     (case tokenize (countGroups False pattern) 1 pattern of
        Inl e \<Rightarrow> Inl e
      | Inr ts \<Rightarrow>
          (case build ts [] [] [] of
             Inl e \<Rightarrow> Inl e
           | Inr r \<Rightarrow> Inr (RegExpObj (countGroups False pattern) r)))"

section \<open>Regular expressions: the backtracking matcher\<close>

text \<open>
  A matcher state is a position in the input (the code unit before it, if any, and the
  input from it on) and the captures so far, indexed by group (index 0 is unused during
  matching).  A matcher returns, in the order backtracking tries them, the states in
  which its pattern can end: the head of the list is what ECMAScript's continuation
  semantics reaches first.
\<close>

datatype mstate = MState (prev: "code_unit option") (rest: jsstring) (caps: "jsstring option list")

definition class_item_match :: "code_unit \<Rightarrow> class_item \<Rightarrow> bool" where
  "class_item_match c i =
     (case i of
        CChar x \<Rightarrow> c = x
      | CRange a b \<Rightarrow> a \<le> c \<and> c \<le> b
      | CEsc e pos \<Rightarrow>
          (case e of Digit \<Rightarrow> is_digit c | Space \<Rightarrow> is_ws c | Word \<Rightarrow> is_word c) = pos)"

definition step :: "(code_unit \<Rightarrow> bool) \<Rightarrow> mstate \<Rightarrow> mstate list" where
  "step p s =
     (case rest s of
        [] \<Rightarrow> []
      | x # xs \<Rightarrow> if p x then [MState (Some x) xs (caps s)] else [])"

fun groups_of :: "regex \<Rightarrow> nat list" where
  "groups_of (Seq a b) = groups_of a @ groups_of b"
| "groups_of (Alt a b) = groups_of a @ groups_of b"
| "groups_of (Grp n r) = n # groups_of r"
| "groups_of (Rep r mn mx g) = groups_of r"
| "groups_of (Look b r) = groups_of r"
| "groups_of r = []"

definition reset_caps :: "nat list \<Rightarrow> mstate \<Rightarrow> mstate" where
  "reset_caps gs s = MState (prev s) (rest s) (fold (\<lambda>g cs. cs[g := None]) gs (caps s))"

text \<open>
  RepeatMatcher: \<open>f\<close> matches the quantified atom once and \<open>gs\<close> are the groups inside
  it, cleared before each iteration.  Once the minimum is reached an iteration that does
  not move forward is rejected (ECMAScript compares the end positions for equality; no
  matcher here moves backwards, see \<open>m_rest\<close>).
\<close>

function rp :: "(mstate \<Rightarrow> mstate list) \<Rightarrow> nat list \<Rightarrow> nat \<Rightarrow> nat option \<Rightarrow> bool \<Rightarrow> mstate
    \<Rightarrow> mstate list" where
  "rp f gs mn mx greedy s =
     (if mx = Some 0 then [s]
      else
        (let its = concat (map (\<lambda>y. if mn = 0 \<and> length (rest s) \<le> length (rest y) then []
                                     else rp f gs (mn - 1) (map_option (\<lambda>k. k - 1) mx) greedy y)
                               (f (reset_caps gs s)))
         in if mn \<noteq> 0 then its else if greedy then its @ [s] else s # its))"
  by pat_completeness auto
termination
  by (relation "measures [\<lambda>(f, gs, mn, mx, g, s). mn, \<lambda>(f, gs, mn, mx, g, s). length (rest s)]") auto

definition nth_opt :: "'a option list \<Rightarrow> nat \<Rightarrow> 'a option" where
  "nth_opt xs i = (if i < length xs then xs ! i else None)"

fun m :: "regex \<Rightarrow> mstate \<Rightarrow> mstate list" where
  "m Empty s = [s]"
| "m (Chr c) s = step (\<lambda>x. x = c) s"
| "m Dot s = step (\<lambda>x. \<not> is_line_terminator x) s"
| "m (Cls neg items) s = step (\<lambda>x. list_ex (class_item_match x) items \<noteq> neg) s"
| "m (Seq a b) s = concat (map (m b) (m a s))"
| "m (Alt a b) s = m a s @ m b s"
| "m (Grp n r) s =
     map (\<lambda>y. MState (prev y) (rest y)
                 ((caps y)[n := Some (take (length (rest s) - length (rest y)) (rest s))]))
         (m r s)"
| "m (Rep r mn mx g) s = rp (m r) (groups_of r) mn mx g s"
| "m Bol s = (if prev s = None then [s] else [])"
| "m Eol s = (if rest s = [] then [s] else [])"
| "m (WordB b) s =
     (let a = (case prev s of None \<Rightarrow> False | Some c \<Rightarrow> is_word c);
          d = (case rest s of [] \<Rightarrow> False | c # _ \<Rightarrow> is_word c)
      in if (a \<noteq> d) = b then [s] else [])"
| "m (Look b r) s =
     (if b then (case m r s of [] \<Rightarrow> [] | y # _ \<Rightarrow> [MState (prev s) (rest s) (caps y)])
      else if m r s = [] then [s] else [])"
| "m (BackRef n) s =
     (case nth_opt (caps s) n of
        None \<Rightarrow> [s]
      | Some w \<Rightarrow>
          if prefix w (rest s)
          then [MState (if w = [] then prev s else Some (last w)) (drop (length w) (rest s)) (caps s)]
          else [])"

text \<open>
  \<open>RegExp.prototype.exec\<close> for a regular expression without the global flag: the
  leftmost start position with a match, and there the first match in backtracking order.
  The result is the match array: the matched text, then one entry per group, \<open>None\<close> for
  \<open>undefined\<close>.
\<close>

fun search :: "regexp \<Rightarrow> code_unit option \<Rightarrow> jsstring \<Rightarrow> jsstring option list option" where
  "search re p [] =
     (case m (ast re) (MState p [] (replicate (Suc (ncap re)) None)) of
        [] \<Rightarrow> None
      | y # _ \<Rightarrow> Some ((caps y)[0 := Some []]))"
| "search re p (x # xs) =
     (case m (ast re) (MState p (x # xs) (replicate (Suc (ncap re)) None)) of
        [] \<Rightarrow> search re (Some x) xs
      | y # _ \<Rightarrow> Some ((caps y)[0 := Some (take (length (x # xs) - length (rest y)) (x # xs))]))"

definition exec :: "regexp \<Rightarrow> jsstring \<Rightarrow> jsstring option list option" where
  "exec re s = search re None s"

definition test :: "regexp \<Rightarrow> jsstring \<Rightarrow> bool" where
  "test re s \<longleftrightarrow> exec re s \<noteq> None"

section \<open>String.prototype.replace with a global literal pattern\<close>

text \<open>
  GetSubstitution for a match without capturing groups: in the replacement text \<open>$$\<close>
  is a dollar sign, \<open>$&\<close> the matched text, \<open>$`\<close> the text before the match and \<open>$'\<close>
  the text after it; any other \<open>$\<close> stands for itself.
\<close>

fun getSubstitution :: "jsstring \<Rightarrow> jsstring \<Rightarrow> jsstring \<Rightarrow> jsstring \<Rightarrow> jsstring" where
  "getSubstitution matched preceding following [] = []"
| "getSubstitution matched preceding following [c] = [c]"
| "getSubstitution matched preceding following (c # d # cs) =
     (if c \<noteq> CU CHR ''$'' then c # getSubstitution matched preceding following (d # cs)
      else if d = CU CHR ''$'' then CU CHR ''$'' # getSubstitution matched preceding following cs
      else if d = CU CHR ''&'' then matched @ getSubstitution matched preceding following cs
      else if d = CU CHR ''`'' then preceding @ getSubstitution matched preceding following cs
      else if d = 0x27 then following @ getSubstitution matched preceding following cs
      else c # getSubstitution matched preceding following (d # cs))"

text \<open>
  \<open>s.replace(/needle/g, replacement)\<close> where the pattern matches the literal text
  \<open>needle\<close> only: every occurrence, leftmost first and not overlapping, is replaced by
  the substitution of the replacement text.  \<open>preceding\<close> is the part of the
  subject already passed.
\<close>

function replaceAll :: "jsstring \<Rightarrow> jsstring \<Rightarrow> jsstring \<Rightarrow> jsstring \<Rightarrow> jsstring" where
  "replaceAll needle replacement preceding [] = []"
| "replaceAll needle replacement preceding (c # cs) =
     (if needle \<noteq> [] \<and> prefix needle (c # cs)
      then getSubstitution needle preceding (drop (length needle) (c # cs)) replacement
           @ replaceAll needle replacement (preceding @ needle) (drop (length needle) (c # cs))
      else c # replaceAll needle replacement (preceding @ [c]) cs)"
  by pat_completeness auto
termination
  by (relation "measure (\<lambda>(n, r, b, s). length s)") (auto simp: neq_Nil_conv)

section \<open>The link shortener\<close>

record LinkPattern =
  id' :: jsstring
  name :: jsstring
  enabled :: bool
  domainPattern :: jsstring
  pathPattern :: jsstring
  outputTemplate :: jsstring

text \<open>\<open>match[1].replace(/^https?:\/\//, '')\<close>\<close>

definition stripScheme :: "jsstring \<Rightarrow> jsstring" where
  "stripScheme s =
     (if prefix (js ''https://'') s then drop 8 s
      else if prefix (js ''http://'') s then drop 7 s
      else s)"

text \<open>The text \<open>${i}\<close> for a loop index from 1 to 9, which the regular expression
  \<open>new RegExp(`\\$\\{${i}\\}`, 'g')\<close> matches literally.\<close>

definition placeholder :: "nat \<Rightarrow> jsstring" where
  "placeholder i = js ''${'' @ [0x30 + i] @ js ''}''"

text \<open>The loop \<open>for (let i = 1; i <= 9; i++)\<close> of \<open>matchPattern\<close>, from index \<open>i\<close> on.\<close>

function captureLoop :: "jsstring option list \<Rightarrow> nat \<Rightarrow> jsstring \<Rightarrow> js_error + jsstring" where
  "captureLoop match i output =
     (if i \<le> 9 then
        (let captureIndex = i + 1;
             rawValue = (case nth_opt match captureIndex of Some v \<Rightarrow> v | None \<Rightarrow> [])
         in bind_err (decodeUrlString rawValue)
              (\<lambda>captureValue.
                 captureLoop match (i + 1) (replaceAll (placeholder i) captureValue [] output)))
      else Inr output)"
  by pat_completeness auto
termination
  by (relation "measure (\<lambda>(match, i, output). 10 - i)") auto

definition domainRegexSource :: "jsstring \<Rightarrow> jsstring" where
  "domainRegexSource escapedDomain = js ''^https?:'' @ [BSL] @ js ''/'' @ [BSL] @ js ''/'' @ escapedDomain"

definition fullRegexSource :: "jsstring \<Rightarrow> jsstring \<Rightarrow> jsstring" where
  "fullRegexSource escapedDomain path =
     js ''^(https?:'' @ [BSL] @ js ''/'' @ [BSL] @ js ''/'' @ escapedDomain @ js '')'' @ path
       @ js ''('' @ [BSL] @ js ''?.*)?$''"

definition matchPattern :: "jsstring \<Rightarrow> LinkPattern \<Rightarrow> js_error + jsstring option" where
  "matchPattern url pattern =
     (if \<not> enabled pattern then Inr None
      else if domainPattern pattern = [] \<or> pathPattern pattern = [] then Inr None
      else
        (let escapedDomain = escapeDomainPattern (domainPattern pattern)
         in bind_err (RegExp (domainRegexSource escapedDomain))
              (\<lambda>domainRegex.
                 if \<not> test domainRegex url then Inr None
                 else
                   bind_err (RegExp (fullRegexSource escapedDomain (pathPattern pattern)))
                     (\<lambda>fullRegex.
                        (case exec fullRegex url of
                           None \<Rightarrow> Inr None
                         | Some match \<Rightarrow>
                             (let output = replaceAll (js ''${url}'') url [] (outputTemplate pattern)
                              in (case nth_opt match 1 of
                                    None \<Rightarrow> Inl TypeError
                                  | Some wrapped \<Rightarrow>
                                      (let domainMatch = stripScheme wrapped;
                                           output' = replaceAll (js ''${domain}'') domainMatch [] output
                                       in bind_err (captureLoop match 1 output')
                                            (\<lambda>result. Inr (Some result))))))))))"

text \<open>
  \<open>formatLink\<close>: the sanity checks, then the loop \<open>for (const pattern of patterns)\<close>.  The
  argument has the type \<open>string\<close> in the source, so the check \<open>typeof pastedText !== 'string'\<close>
  never fires here.
\<close>

fun tryPatterns :: "jsstring \<Rightarrow> LinkPattern list \<Rightarrow> js_error + jsstring option" where
  "tryPatterns pastedText [] = Inr None"
| "tryPatterns pastedText (pattern # patterns) =
     bind_err (matchPattern pastedText pattern)
       (\<lambda>result. if result \<noteq> None then Inr result else tryPatterns pastedText patterns)"

definition formatLink :: "jsstring \<Rightarrow> LinkPattern list \<Rightarrow> js_error + jsstring option" where
  "formatLink pastedText patterns =
     (if trim pastedText = [] then Inr None
      else if list_ex is_ws pastedText then Inr None
      else tryPatterns pastedText patterns)"

text \<open>\<open>template.includes(needle)\<close>\<close>

fun includes_str :: "jsstring \<Rightarrow> jsstring \<Rightarrow> bool" where
  "includes_str [] needle \<longleftrightarrow> needle = []"
| "includes_str (c # cs) needle \<longleftrightarrow> prefix needle (c # cs) \<or> includes_str cs needle"

text \<open>The regular expression literal \<open>/\$\{\d+\}/\<close> of \<open>validateOutputTemplate\<close>.\<close>

definition groupRefRegex :: regexp where
  "groupRefRegex =
     RegExpObj 0
       (Seq (Chr (CU CHR ''$''))
         (Seq (Chr (CU CHR ''{''))
           (Seq (Rep (Cls False [CEsc Digit True]) 1 None True)
             (Seq (Chr (CU CHR ''}'')) Empty))))"

datatype template_error = TemplateEmpty | TemplateWithoutPlaceholder

definition validateOutputTemplate :: "jsstring \<Rightarrow> template_error option" where
  "validateOutputTemplate template =
     (if template = [] \<or> trim template = [] then Some TemplateEmpty
      else if \<not> includes_str template (js ''${url}'') \<and> \<not> test groupRefRegex template
        then Some TemplateWithoutPlaceholder
      else None)"

section \<open>The domain matcher of the specification\<close>

text \<open>
  The domain matcher as the specification words it: the remainder of the URL starts with
  the pattern, where \<open>*\<close> stands for any sequence of characters, the empty one included,
  and every other character of the pattern for itself.
\<close>

fun wildcardPrefix :: "jsstring \<Rightarrow> jsstring \<Rightarrow> bool" where
  "wildcardPrefix [] s \<longleftrightarrow> True"
| "wildcardPrefix (p # ps) s \<longleftrightarrow>
     (if p = CU CHR ''*'' then list_ex (\<lambda>k. wildcardPrefix ps (drop k s)) [0..<Suc (length s)]
      else (case s of [] \<Rightarrow> False | c # cs \<Rightarrow> c = p \<and> wildcardPrefix ps cs))"

text \<open>
  For the proofs about the domain regular expression: what \<open>escapeDomainPattern\<close> does to
  one character, the term of the regular expression that comes of it, and the terms of
  the fixed text \<open>^https?:\/\/\<close> in front.
\<close>

definition escapeChar :: "code_unit \<Rightarrow> jsstring" where
  "escapeChar c = (if is_regex_special c then [BSL, c] else if c = CU CHR ''*'' then js ''.*'' else [c])"

definition domainTerm :: "code_unit \<Rightarrow> regex" where
  "domainTerm c = (if c = CU CHR ''*'' then Rep Dot 0 None True else Chr c)"

definition schemeTerms :: "regex list" where
  "schemeTerms =
     [Bol, Chr (CU CHR ''h''), Chr (CU CHR ''t''), Chr (CU CHR ''t''), Chr (CU CHR ''p''),
      Rep (Chr (CU CHR ''s'')) 0 (Some 1) True, Chr (CU CHR '':''), Chr (CU CHR ''/''),
      Chr (CU CHR ''/'')]"

section \<open>Example rules\<close>

text \<open>The preset \<open>jira\<close> of \<open>PRESET_PATTERNS\<close>, as \<open>createPatternFromPreset\<close> returns it with
  some generated id.\<close>

definition jiraPreset :: LinkPattern where
  "jiraPreset =
     \<lparr>id' = js ''pattern_1'', name = js ''JIRA Issues'', enabled = True,
      domainPattern = js ''*.atlassian.net'',
      pathPattern = BSL # js ''/.*'' @ BSL # js ''/([A-Z][A-Z0-9]*-'' @ BSL # js ''d+)'',
      outputTemplate = js ''[${1}](${url})''\<rparr>"

text \<open>A rule for the host \<open>a.com\<close> with the given path pattern and template.\<close>

definition ruleFor :: "jsstring \<Rightarrow> string \<Rightarrow> LinkPattern" where
  "ruleFor path template =
     \<lparr>id' = js ''pattern_2'', name = js ''Example'', enabled = True,
      domainPattern = js ''a.com'', pathPattern = path, outputTemplate = js template\<rparr>"

text \<open>The rule of the repository's test "should handle missing capture groups gracefully":
  one capture group in the path pattern \<open>\/page\/(\d+)\<close>, three placeholders in the template.\<close>

definition pageRule :: LinkPattern where
  "pageRule =
     \<lparr>id' = js ''test'', name = js ''Test'', enabled = True,
      domainPattern = js ''example.com'',
      pathPattern = BSL # js ''/page'' @ BSL # js ''/('' @ BSL # js ''d+)'',
      outputTemplate = js ''[${1} ${2} ${3}](${url})''\<rparr>"

section \<open>Evaluation\<close>

text \<open>The defining equations that evaluate the model on a concrete input.\<close>

declare rp.simps [simp del] captureLoop.simps [simp del]

lemmas eval_defs =
  js_def step_def reset_caps_def is_line_terminator_def is_ws_def is_digit_def is_word_def
  is_letter_def is_octal_def hexval_def bind_err_def try_catch_def trim_def plusToSpace_def
  decodeUrlString_def is_regex_special_def escapeSpecial_def expandWildcards_def
  escapeDomainPattern_def decimal_def legacyOctal_def charEscape_def classEscape_def
  parseAtomEscape_def parseClassAtom_def mkRange_def parseClass_def parseBraces_def
  parseQuantPrefix_def parseQuant_def applyq_def withQuant_def lexTerm_def mkSeq_def
  mkDisjunction_def wrapGroup_def RegExp_def class_item_match_def nth_opt_def exec_def test_def
  stripScheme_def placeholder_def domainRegexSource_def fullRegexSource_def matchPattern_def
  formatLink_def groupRefRegex_def validateOutputTemplate_def leading_ones_def
  utf8_code_point_def utf16_encode_def is_continuation_def rp.simps captureLoop.simps
  jiraPreset_def ruleFor_def pageRule_def

section \<open>The model on known results\<close>

text \<open>Examples of the ECMAScript specification for the matcher (the pattern, the input and
  the match array), and tests of the repository.\<close>

lemma ecmascript_examples:
  "map_sum id (\<lambda>re. exec re (js ''zaacbbbcac'')) (RegExp (js ''(z)((a+)?(b+)?(c))*''))
     = Inr (Some [Some (js ''zaacbbbcac''), Some (js ''z''), Some (js ''ac''), Some (js ''a''), None, Some (js ''c'')])"
  "map_sum id (\<lambda>re. exec re (js ''abcdefghi'')) (RegExp (js ''a[a-z]{2,4}?''))
     = Inr (Some [Some (js ''abc'')])"
  "map_sum id (\<lambda>re. exec re (js ''aabaac'')) (RegExp (js ''(aa|aabaac|ba|b|c)*''))
     = Inr (Some [Some (js ''aaba''), Some (js ''ba'')])"
  "map_sum id (\<lambda>re. exec re (js ''baaabac'')) (RegExp (js ''(?=(a+))a*b'' @ BSL # js ''1''))
     = Inr (Some [Some (js ''aba''), Some (js ''a'')])"
  by (simp_all add: eval_defs)

lemma wildcardPrefix_examples:
  "wildcardPrefix (js ''*.atlassian.net'') (js ''company.atlassian.net/browse/DEV-1'')"
  "\<not> wildcardPrefix (js ''*.atlassian.net'') (js ''docs.google.com/d/1'')"
  "wildcardPrefix (js ''example.com/jira'') (js ''example.com/jira/browse/DEV-1'')"
  "\<not> wildcardPrefix (js ''a.com'') (js ''abcom/x'')"
  by (simp_all add: js_def)

lemma repository_tests:
  "formatLink (js ''ftp://examplecompany.atlassian.net/browse/DEV-456'') [jiraPreset] = Inr None"
  "formatLink (js ''https://company.atlassian.net/browse/DEV-123'') [jiraPreset]
     = Inr (Some (js ''[DEV-123](https://company.atlassian.net/browse/DEV-123)''))"
  "matchPattern (js ''https://example.com/page/Hello%20World'')
     (pageRule\<lparr>pathPattern := BSL # js ''/page'' @ BSL # js ''/([^?]+)'', outputTemplate := js ''[${1}](${url})''\<rparr>)
     = Inr (Some (js ''[Hello World](https://example.com/page/Hello%20World)''))"
  "matchPattern (js ''https://sub.example.com/page/123'')
     (pageRule\<lparr>domainPattern := js ''*.example.com'', outputTemplate := js ''[Page ${1} on ${domain}](${url})''\<rparr>)
     = Inr (Some (js ''[Page 123 on sub.example.com](https://sub.example.com/page/123)''))"
  by (simp_all add: eval_defs)

text \<open>The regular expressions of the \<open>replace\<close> calls in \<open>matchPattern\<close> match one literal
  text each, the needle given to \<open>replaceAll\<close>.\<close>

lemma placeholder_regexes_are_literal:
  "RegExp (BSL # js ''$'' @ BSL # js ''{url'' @ BSL # js ''}'')
     = Inr (RegExpObj 0 (foldr Seq (map Chr (js ''${url}'')) Empty))"
  "RegExp (BSL # js ''$'' @ BSL # js ''{domain'' @ BSL # js ''}'')
     = Inr (RegExpObj 0 (foldr Seq (map Chr (js ''${domain}'')) Empty))"
  "i \<in> {1..9} \<Longrightarrow> RegExp (BSL # js ''$'' @ BSL # js ''{'' @ [0x30 + i] @ BSL # js ''}'')
     = Inr (RegExpObj 0 (foldr Seq (map Chr (placeholder i)) Empty))"
proof -
  show "RegExp (BSL # js ''$'' @ BSL # js ''{url'' @ BSL # js ''}'')
      = Inr (RegExpObj 0 (foldr Seq (map Chr (js ''${url}'')) Empty))"
    by (simp add: eval_defs)
  show "RegExp (BSL # js ''$'' @ BSL # js ''{domain'' @ BSL # js ''}'')
      = Inr (RegExpObj 0 (foldr Seq (map Chr (js ''${domain}'')) Empty))"
    by (simp add: eval_defs)
  assume "i \<in> {1..9}"
  then have "i = 1 \<or> i = 2 \<or> i = 3 \<or> i = 4 \<or> i = 5 \<or> i = 6 \<or> i = 7 \<or> i = 8 \<or> i = 9"
    by auto
  then show "RegExp (BSL # js ''$'' @ BSL # js ''{'' @ [0x30 + i] @ BSL # js ''}'')
      = Inr (RegExpObj 0 (foldr Seq (map Chr (placeholder i)) Empty))"
    by (elim disjE) (simp_all add: eval_defs)
qed

lemma decodeUrlString_tests:
  "decodeUrlString (js ''Hello+World'') = Inr (js ''Hello World'')"
  "decodeUrlString (js ''Hello%20World'') = Inr (js ''Hello World'')"
  "decodeUrlString (js ''Claude+Code+z+LiteLLM'') = Inr (js ''Claude Code z LiteLLM'')"
  "decodeUrlString (js ''HelloWorld'') = Inr (js ''HelloWorld'')"
  "decodeUrlString (js ''%C3%A9'') = Inr [0xE9]"
  "decodeUrlString (js ''%E2%82%AC'') = Inr [0x20AC]"
  "decodeUrlString (js ''%F0%9F%98%80'') = Inr [0xD83D, 0xDE00]"
  "decodeUrlString (js ''%C0%80+'') = Inr (js ''%C0%80 '')"
  "decodeUrlString (js ''%ED%A0%80'') = Inr (js ''%ED%A0%80'')"
  by (simp_all add: eval_defs numeral_2_eq_2 numeral_3_eq_3)

section \<open>The evaluator: sanity checks and rule order\<close>

lemma trim_empty_iff: "trim s = [] \<longleftrightarrow> (\<forall>c\<in>set s. is_ws c)"
proof
  assume "trim s = []"
  then have all_rev: "\<forall>c\<in>set (dropWhile is_ws s). is_ws c"
    by (simp add: trim_def)
  have "dropWhile is_ws s = []"
  proof (rule ccontr)
    assume ne: "dropWhile is_ws s \<noteq> []"
    then have "\<not> is_ws (hd (dropWhile is_ws s))" by (rule hd_dropWhile)
    moreover have "hd (dropWhile is_ws s) \<in> set (dropWhile is_ws s)" using ne by simp
    ultimately show False using all_rev by blast
  qed
  then show "\<forall>c\<in>set s. is_ws c" by simp
next
  assume "\<forall>c\<in>set s. is_ws c"
  then show "trim s = []" by (auto simp: trim_def dest: set_dropWhileD)
qed

lemma tryPatterns_no_match:
  "\<forall>p\<in>set patterns. matchPattern t p = Inr None \<Longrightarrow> tryPatterns t patterns = Inr None"
  by (induction patterns) (simp_all add: bind_err_def)

lemma tryPatterns_first_match:
  "i < length patterns \<Longrightarrow> matchPattern t (patterns ! i) = Inr (Some r)
   \<Longrightarrow> \<forall>j<i. matchPattern t (patterns ! j) = Inr None
   \<Longrightarrow> tryPatterns t patterns = Inr (Some r)"
proof (induction patterns arbitrary: i)
  case Nil
  then show ?case by simp
next
  case (Cons p ps)
  show ?case
  proof (cases i)
    case 0
    with Cons.prems show ?thesis by (simp add: bind_err_def)
  next
    case (Suc k)
    with Cons.prems have head: "matchPattern t p = Inr None" by auto
    from Suc Cons.prems have "k < length ps" "matchPattern t (ps ! k) = Inr (Some r)"
      by simp_all
    moreover from Suc Cons.prems have "\<forall>j<k. matchPattern t (ps ! j) = Inr None" by auto
    ultimately have "tryPatterns t ps = Inr (Some r)" by (rule Cons.IH)
    with head show ?thesis by (simp add: bind_err_def)
  qed
qed

lemma matchPattern_skips:
  "\<not> enabled p \<or> domainPattern p = [] \<or> pathPattern p = [] \<Longrightarrow> matchPattern url p = Inr None"
  by (auto simp: matchPattern_def)

text \<open>
  C4. A candidate that is empty, consists of white space only, or contains a white space
  character anywhere is rejected by \<open>formatLink\<close> with the result null, whatever the rules.
\<close>

theorem formatLink_rejects_whitespace:
  "pastedText = [] \<or> (\<forall>c\<in>set pastedText. is_ws c) \<or> (\<exists>c\<in>set pastedText. is_ws c)
   \<Longrightarrow> formatLink pastedText patterns = Inr None"
proof (cases "\<exists>c\<in>set pastedText. is_ws c")
  case True
  then have "list_ex is_ws pastedText" by (simp add: list_ex_iff)
  then show ?thesis by (simp add: formatLink_def)
next
  case False
  assume "pastedText = [] \<or> (\<forall>c\<in>set pastedText. is_ws c) \<or> (\<exists>c\<in>set pastedText. is_ws c)"
  with False have "\<forall>c\<in>set pastedText. is_ws c" by auto
  then have "trim pastedText = []" by (simp add: trim_empty_iff)
  then show ?thesis by (simp add: formatLink_def)
qed

theorem formatLink_rejects_whitespace_witness:
  "(\<exists>c\<in>set (js ''https://a.atlassian.net/browse/DEV-1 x''). is_ws c)
   \<and> formatLink (js ''https://a.atlassian.net/browse/DEV-1 x'') [jiraPreset] = Inr None"
proof -
  have h: "\<exists>c\<in>set (js ''https://a.atlassian.net/browse/DEV-1 x''). is_ws c"
    by (simp add: js_def is_ws_def)
  then have "js ''https://a.atlassian.net/browse/DEV-1 x'' = []
      \<or> (\<forall>c\<in>set (js ''https://a.atlassian.net/browse/DEV-1 x''). is_ws c)
      \<or> (\<exists>c\<in>set (js ''https://a.atlassian.net/browse/DEV-1 x''). is_ws c)"
    by blast
  from formatLink_rejects_whitespace [OF this] h show ?thesis by blast
qed

text \<open>
  C7. \<open>matchPattern\<close> returns null, and does not throw, for a rule that is disabled or
  whose domain pattern or path pattern is the empty string; hence \<open>formatLink\<close> returns
  null for every candidate when every rule of the list is disabled.
\<close>

theorem disabled_or_incomplete_rule_never_matches:
  "(\<not> enabled p \<or> domainPattern p = [] \<or> pathPattern p = [] \<longrightarrow> matchPattern url p = Inr None)
   \<and> ((\<forall>q\<in>set patterns. \<not> enabled q) \<longrightarrow> formatLink pastedText patterns = Inr None)"
proof (intro conjI impI)
  assume "\<not> enabled p \<or> domainPattern p = [] \<or> pathPattern p = []"
  then show "matchPattern url p = Inr None" by (rule matchPattern_skips)
next
  assume "\<forall>q\<in>set patterns. \<not> enabled q"
  then have "\<forall>q\<in>set patterns. matchPattern pastedText q = Inr None"
    by (simp add: matchPattern_skips)
  then have "tryPatterns pastedText patterns = Inr None" by (rule tryPatterns_no_match)
  then show "formatLink pastedText patterns = Inr None" by (simp add: formatLink_def)
qed

theorem disabled_or_incomplete_rule_never_matches_witness:
  "\<not> enabled (jiraPreset\<lparr>enabled := False\<rparr>)
   \<and> matchPattern (js ''https://a.atlassian.net/browse/DEV-1'') (jiraPreset\<lparr>enabled := False\<rparr>) = Inr None
   \<and> formatLink (js ''https://a.atlassian.net/browse/DEV-1'') [jiraPreset\<lparr>enabled := False\<rparr>] = Inr None"
  using disabled_or_incomplete_rule_never_matches
    [of "jiraPreset\<lparr>enabled := False\<rparr>" "js ''https://a.atlassian.net/browse/DEV-1''"
        "[jiraPreset\<lparr>enabled := False\<rparr>]" "js ''https://a.atlassian.net/browse/DEV-1''"]
  by simp

text \<open>
  C3, as the code has it.  For a candidate that passes the sanity checks (not blank, no
  white space), if a rule of the list matches and every rule before it returns null,
  \<open>formatLink\<close> returns the result of that rule, the earliest matching one.  For any
  candidate and two rules that both match it, the result for the list of both is the
  result for the first rule alone.
\<close>

theorem first_match_wins:
  "(pastedText \<noteq> [] \<and> \<not> list_ex is_ws pastedText \<and> i < length patterns
      \<and> matchPattern pastedText (patterns ! i) = Inr (Some result)
      \<and> (\<forall>j<i. matchPattern pastedText (patterns ! j) = Inr None)
     \<longrightarrow> formatLink pastedText patterns = Inr (Some result))
   \<and> (matchPattern pastedText p1 = Inr (Some r1) \<and> matchPattern pastedText p2 = Inr (Some r2)
     \<longrightarrow> formatLink pastedText [p1, p2] = formatLink pastedText [p1])"
proof (intro conjI impI)
  assume a: "pastedText \<noteq> [] \<and> \<not> list_ex is_ws pastedText \<and> i < length patterns
      \<and> matchPattern pastedText (patterns ! i) = Inr (Some result)
      \<and> (\<forall>j<i. matchPattern pastedText (patterns ! j) = Inr None)"
  then have "\<not> (\<forall>c\<in>set pastedText. is_ws c)"
    by (cases pastedText) (auto simp: list_ex_iff)
  then have "trim pastedText \<noteq> []" by (simp add: trim_empty_iff)
  moreover from a have "tryPatterns pastedText patterns = Inr (Some result)"
    by (intro tryPatterns_first_match) auto
  ultimately show "formatLink pastedText patterns = Inr (Some result)"
    using a by (simp add: formatLink_def)
next
  assume "matchPattern pastedText p1 = Inr (Some r1) \<and> matchPattern pastedText p2 = Inr (Some r2)"
  then show "formatLink pastedText [p1, p2] = formatLink pastedText [p1]"
    by (simp add: formatLink_def bind_err_def)
qed

text \<open>
  C3 as stated fails on a candidate with white space: the rule matches it (\<open>matchPattern\<close>
  returns a result), and \<open>formatLink\<close> returns null.
\<close>

theorem first_match_wins_counterexample:
  "matchPattern (js ''https://a.com/x y'') (ruleFor (js ''/.*'') ''[x](${url})'')
     = Inr (Some (js ''[x](https://a.com/x y)''))
   \<and> formatLink (js ''https://a.com/x y'') [ruleFor (js ''/.*'') ''[x](${url})''] = Inr None"
  by (simp add: eval_defs)

theorem first_match_wins_witness:
  "formatLink (js ''https://a.com/x'')
     [ruleFor (js ''/y'') ''[y](${url})'', ruleFor (js ''/x'') ''[x](${url})'',
      ruleFor (js ''/.*'') ''[any](${url})'']
     = Inr (Some (js ''[x](https://a.com/x)''))
   \<and> formatLink (js ''https://a.com/x'')
       [ruleFor (js ''/x'') ''[x](${url})'', ruleFor (js ''/.*'') ''[any](${url})'']
     = formatLink (js ''https://a.com/x'') [ruleFor (js ''/x'') ''[x](${url})'']"
proof -
  let ?t = "js ''https://a.com/x''"
  let ?ry = "ruleFor (js ''/y'') ''[y](${url})''"
  let ?rx = "ruleFor (js ''/x'') ''[x](${url})''"
  let ?ra = "ruleFor (js ''/.*'') ''[any](${url})''"
  have my: "matchPattern ?t ?ry = Inr None" by (simp add: eval_defs)
  have mx: "matchPattern ?t ?rx = Inr (Some (js ''[x](https://a.com/x)''))"
    by (simp add: eval_defs)
  have ma: "matchPattern ?t ?ra = Inr (Some (js ''[any](https://a.com/x)''))"
    by (simp add: eval_defs)
  have ne: "?t \<noteq> []" "\<not> list_ex is_ws ?t" by (simp_all add: js_def is_ws_def)
  have "formatLink ?t [?ry, ?rx, ?ra] = Inr (Some (js ''[x](https://a.com/x)''))"
    using first_match_wins [of ?t 1 "[?ry, ?rx, ?ra]" "js ''[x](https://a.com/x)''"] ne my mx
    by simp
  moreover have "formatLink ?t [?rx, ?ra] = formatLink ?t [?rx]"
    using first_match_wins [of ?t _ _ _ ?rx _ ?ra] mx ma by blast
  ultimately show ?thesis by simp
qed

section \<open>Decoding captured values\<close>

lemma decodeURIComponent_plain:
  "CU CHR ''%'' \<notin> set s \<Longrightarrow> decodeURIComponent s = Inr s"
  by (induction s) (simp_all add: bind_err_def)

text \<open>
  C8. \<open>decodeUrlString\<close> never throws.  It turns every \<open>+\<close> into a space (nothing else
  changes, and no \<open>+\<close> is left) and returns what \<open>decodeURIComponent\<close> makes of that; when
  \<open>decodeURIComponent\<close> throws (on a malformed escape sequence) it returns
  the string with only the \<open>+\<close> replaced.  Without any \<open>%\<close> that is the whole result.
\<close>

theorem decodeUrlString_never_throws:
  "(\<exists>r. decodeUrlString str = Inr r)
   \<and> (\<forall>r. decodeURIComponent (plusToSpace str) = Inr r \<longrightarrow> decodeUrlString str = Inr r)
   \<and> (\<forall>e. decodeURIComponent (plusToSpace str) = Inl e
         \<longrightarrow> decodeUrlString str = Inr (plusToSpace str))
   \<and> length (plusToSpace str) = length str
   \<and> CU CHR ''+'' \<notin> set (plusToSpace str)
   \<and> (\<forall>i<length str. plusToSpace str ! i = (if str ! i = CU CHR ''+'' then CU CHR '' '' else str ! i))
   \<and> (CU CHR ''%'' \<notin> set str \<longrightarrow> decodeUrlString str = Inr (plusToSpace str))"
proof (intro conjI allI impI)
  show "\<exists>r. decodeUrlString str = Inr r"
    by (simp add: decodeUrlString_def try_catch_def split: sum.splits)
next
  fix r assume "decodeURIComponent (plusToSpace str) = Inr r"
  then show "decodeUrlString str = Inr r" by (simp add: decodeUrlString_def try_catch_def)
next
  fix e assume "decodeURIComponent (plusToSpace str) = Inl e"
  then show "decodeUrlString str = Inr (plusToSpace str)"
    by (simp add: decodeUrlString_def try_catch_def)
next
  show "length (plusToSpace str) = length str" by (simp add: plusToSpace_def)
next
  show "CU CHR ''+'' \<notin> set (plusToSpace str)" by (auto simp: plusToSpace_def)
next
  fix i assume "i < length str"
  then show "plusToSpace str ! i = (if str ! i = CU CHR ''+'' then CU CHR '' '' else str ! i)"
    by (simp add: plusToSpace_def)
next
  assume "CU CHR ''%'' \<notin> set str"
  then have "CU CHR ''%'' \<notin> set (plusToSpace str)" by (auto simp: plusToSpace_def)
  then have "decodeURIComponent (plusToSpace str) = Inr (plusToSpace str)"
    by (rule decodeURIComponent_plain)
  then show "decodeUrlString str = Inr (plusToSpace str)"
    by (simp add: decodeUrlString_def try_catch_def)
qed

theorem decodeUrlString_never_throws_witness:
  "decodeURIComponent (plusToSpace (js ''Hello+World%21'')) = Inr (js ''Hello World!'')
   \<and> decodeUrlString (js ''Hello+World%21'') = Inr (js ''Hello World!'')
   \<and> decodeURIComponent (plusToSpace (js ''100%+sure'')) = Inl URIError
   \<and> decodeUrlString (js ''100%+sure'') = Inr (js ''100% sure'')
   \<and> decodeUrlString (js ''a+b'') = Inr (js ''a b'')"
proof -
  have ok: "decodeURIComponent (plusToSpace (js ''Hello+World%21'')) = Inr (js ''Hello World!'')"
    by (simp add: eval_defs)
  have bad: "decodeURIComponent (plusToSpace (js ''100%+sure'')) = Inl URIError"
    by (simp add: eval_defs)
  have sp: "plusToSpace (js ''100%+sure'') = js ''100% sure''" "plusToSpace (js ''a+b'') = js ''a b''"
    by (simp_all add: eval_defs)
  have pl: "CU CHR ''%'' \<notin> set (js ''a+b'')" by (simp add: js_def)
  from decodeUrlString_never_throws [of "js ''Hello+World%21''"] ok
  have "decodeUrlString (js ''Hello+World%21'') = Inr (js ''Hello World!'')" by blast
  moreover from decodeUrlString_never_throws [of "js ''100%+sure''"] bad sp
  have "decodeUrlString (js ''100%+sure'') = Inr (js ''100% sure'')" by metis
  moreover from decodeUrlString_never_throws [of "js ''a+b''"] pl sp
  have "decodeUrlString (js ''a+b'') = Inr (js ''a b'')" by metis
  ultimately show ?thesis using ok bad by simp
qed


section \<open>The rule matcher on concrete rules\<close>

text \<open>
  C1.  A rule whose path pattern is not a regular expression makes \<open>new RegExp\<close> throw
  inside \<open>matchPattern\<close>, which has no \<open>try\<close>; the SyntaxError leaves \<open>formatLink\<close>, and the
  next rule, which matches the candidate, is never tried.  A path pattern with an
  alternative, a regular expression in its own right, can match without the wrapper
  group: \<open>match[1]\<close> is then undefined and \<open>match[1].replace\<close> throws a TypeError.
\<close>

theorem formatLink_throws_on_malformed_rule:
  "formatLink (js ''https://a.com/x'') [ruleFor (js ''('') ''${url}'', ruleFor (js ''/x'') ''[x](${url})'']
     = Inl SyntaxError
   \<and> formatLink (js ''https://a.com/x'') [ruleFor (js ''/x'') ''[x](${url})'']
     = Inr (Some (js ''[x](https://a.com/x)''))
   \<and> formatLink (js ''https://a.com/y'') [ruleFor (js ''x|/y'') ''${url}'', ruleFor (js ''/y'') ''[y](${url})'']
     = Inl TypeError"
  by (simp add: eval_defs)

text \<open>
  C2.  The rule has one capture group, so \<open>${2}\<close> and \<open>${3}\<close> are beyond it.  Without a
  query string both render as the empty string; with one, \<open>${2}\<close> renders as the query
  string, which the group \<open>(\?.*)?\<close> appended by \<open>matchPattern\<close> captures at index K + 2.
\<close>

theorem placeholder_after_last_group_gets_query_string:
  "countGroups False (pathPattern pageRule) = 1
   \<and> matchPattern (js ''https://example.com/page/123'') pageRule
     = Inr (Some (js ''[123  ](https://example.com/page/123)''))
   \<and> matchPattern (js ''https://example.com/page/123?x=1'') pageRule
     = Inr (Some (js ''[123 ?x=1 ](https://example.com/page/123?x=1)''))"
  by (simp add: eval_defs)

text \<open>
  C5.  The candidate is the replacement text of \<open>String.prototype.replace\<close>, in which
  \<open>$$\<close> stands for one dollar sign: the rendered \<open>${url}\<close> is not the candidate.
\<close>

theorem url_placeholder_not_verbatim:
  "matchPattern (js ''https://a.com/$$'') (ruleFor (js ''/.*'') ''${url}'')
     = Inr (Some (js ''https://a.com/$''))"
  by (simp add: eval_defs)

text \<open>
  C9.  The wildcard of a domain pattern crosses the boundary between host and path: the
  preset for \<open>*.atlassian.net\<close> matches a URL whose host is \<open>evil.com\<close>, and \<open>${domain}\<close>
  is then \<open>evil.com/x.atlassian.net\<close>.
\<close>

theorem domain_wildcard_crosses_host_boundary:
  "escapeDomainPattern (js ''*.atlassian.net'') = js ''.*'' @ BSL # js ''.atlassian'' @ BSL # js ''.net''
   \<and> matchPattern (js ''https://evil.com/x.atlassian.net/browse/DEV-1'') jiraPreset
     = Inr (Some (js ''[DEV-1](https://evil.com/x.atlassian.net/browse/DEV-1)''))
   \<and> matchPattern (js ''https://evil.com/x.atlassian.net/browse/DEV-1'')
       (jiraPreset\<lparr>outputTemplate := js ''${domain}''\<rparr>)
     = Inr (Some (js ''evil.com/x.atlassian.net''))"
  by (simp add: eval_defs)

section \<open>The template validator\<close>

text \<open>The abstract syntax \<open>groupRefRegex\<close> is what the constructor makes of the source text
  of the literal.\<close>

lemma groupRefRegex_source:
  "RegExp (BSL # js ''$'' @ BSL # js ''{'' @ BSL # js ''d+'' @ BSL # js ''}'') = Inr groupRefRegex"
  by (simp add: eval_defs)

lemma search_found:
  "m (ast re) (MState (if pre = [] then p else Some (last pre)) suf (replicate (Suc (ncap re)) None)) \<noteq> []
   \<Longrightarrow> search re p (pre @ suf) \<noteq> None"
proof (induction pre arbitrary: p)
  case Nil
  then show ?case by (cases suf) (auto split: list.splits)
next
  case (Cons a pre)
  have "search re (Some a) (pre @ suf) \<noteq> None"
    using Cons.prems by (intro Cons.IH) (auto split: if_splits)
  then show ?case by (auto split: list.splits)
qed

lemma m_Seq_nonempty: "y \<in> set (m a s) \<Longrightarrow> m b y \<noteq> [] \<Longrightarrow> m (Seq a b) s \<noteq> []"
  by auto

lemma m_Chr_head: "m (Chr c) (MState p (c # r) cs) = [MState (Some c) r cs]"
  by (simp add: step_def)

lemma m_digit_head:
  "is_digit d \<Longrightarrow> m (Cls False [CEsc Digit True]) (MState p (d # r) cs) = [MState (Some d) r cs]"
  by (simp add: step_def class_item_match_def)

lemma rp_digits_star:
  "\<forall>d\<in>set ds. is_digit d
   \<Longrightarrow> \<exists>p'. MState p' r cs \<in> set (rp (m (Cls False [CEsc Digit True])) [] 0 None True (MState p (ds @ r) cs))"
proof (induction ds arbitrary: p)
  case Nil
  show ?case by (subst rp.simps) (auto simp: Let_def)
next
  case (Cons d ds)
  then obtain p' where
    "MState p' r cs \<in> set (rp (m (Cls False [CEsc Digit True])) [] 0 None True (MState (Some d) (ds @ r) cs))"
    by fastforce
  moreover have "is_digit d" using Cons.prems by simp
  ultimately show ?case
    by (subst rp.simps) (auto simp: Let_def reset_caps_def m_digit_head simp del: m.simps)
qed

lemma rp_digits_plus:
  assumes "ds \<noteq> []" "\<forall>d\<in>set ds. is_digit d"
  shows "\<exists>p'. MState p' r cs \<in> set (rp (m (Cls False [CEsc Digit True])) [] 1 None True (MState p (ds @ r) cs))"
proof -
  from assms obtain d ds' where ds: "ds = d # ds'" by (cases ds) auto
  with assms have d: "is_digit d" and rest: "\<forall>d\<in>set ds'. is_digit d" by auto
  from rp_digits_star [OF rest] obtain p' where
    "MState p' r cs \<in> set (rp (m (Cls False [CEsc Digit True])) [] 0 None True (MState (Some d) (ds' @ r) cs))"
    by blast
  then show ?thesis
    unfolding ds by (subst rp.simps) (auto simp: Let_def reset_caps_def m_digit_head d simp del: m.simps)
qed

lemma groupRef_matches:
  assumes "ds \<noteq> []" "\<forall>d\<in>set ds. is_digit d"
  shows "m (ast groupRefRegex) (MState p (js ''${'' @ ds @ js ''}'' @ post) cs) \<noteq> []"
proof -
  let ?digit = "Cls False [CEsc Digit True]"
  let ?s = "MState (Some (CU CHR ''{'')) (ds @ js ''}'' @ post) cs"
  from rp_digits_plus [OF assms] obtain p' where
    "MState p' (js ''}'' @ post) cs \<in> set (rp (m ?digit) [] 1 None True ?s)"
    by blast
  then have a: "MState p' (js ''}'' @ post) cs \<in> set (m (Rep ?digit 1 None True) ?s)"
    by (simp del: m.simps(4))
  have b: "m (Seq (Chr (CU CHR ''}'')) Empty) (MState p' (js ''}'' @ post) cs) \<noteq> []"
    by (simp add: js_def step_def)
  have c: "m (Seq (Rep ?digit 1 None True) (Seq (Chr (CU CHR ''}'')) Empty)) ?s \<noteq> []"
    using a b by (rule m_Seq_nonempty)
  have "m (ast groupRefRegex) (MState p (js ''${'' @ ds @ js ''}'' @ post) cs)
      = m (Seq (Rep ?digit 1 None True) (Seq (Chr (CU CHR ''}'')) Empty)) ?s"
    by (simp add: groupRefRegex_def js_def step_def del: m.simps(4) m.simps(8))
  with c show ?thesis by simp
qed

lemma validateOutputTemplate_digits:
  assumes "ds \<noteq> []" "\<forall>d\<in>set ds. is_digit d"
  shows "validateOutputTemplate (pre @ js ''${'' @ ds @ js ''}'' @ post) = None"
proof -
  let ?t = "pre @ js ''${'' @ ds @ js ''}'' @ post"
  have "CU CHR ''$'' \<in> set ?t" by (simp add: js_def)
  moreover have "\<not> is_ws (CU CHR ''$'')" by (simp add: is_ws_def)
  ultimately have "trim ?t \<noteq> []" unfolding trim_empty_iff by blast
  moreover have "?t \<noteq> []" by (simp add: js_def)
  moreover have "test groupRefRegex ?t"
    unfolding test_def exec_def
    by (rule search_found) (rule groupRef_matches [OF assms])
  ultimately show ?thesis by (simp add: validateOutputTemplate_def)
qed

text \<open>
  C10.  \<open>validateOutputTemplate\<close> accepts every template that contains \<open>${D}\<close> for a
  non-empty digit sequence \<open>D\<close>.  The templates \<open>${0}\<close> and \<open>${12}\<close> pass it, and on a
  successful match \<open>matchPattern\<close>, which substitutes \<open>${1}\<close> to \<open>${9}\<close> only, returns
  them as they are.
\<close>

theorem validator_accepts_placeholders_never_rendered:
  "(ds \<noteq> [] \<and> (\<forall>d\<in>set ds. is_digit d)
      \<longrightarrow> validateOutputTemplate (pre @ js ''${'' @ ds @ js ''}'' @ post) = None)
   \<and> validateOutputTemplate (js ''${0}'') = None
   \<and> matchPattern (js ''https://a.com/x'') (ruleFor (js ''/x'') ''${0}'') = Inr (Some (js ''${0}''))
   \<and> validateOutputTemplate (js ''${12}'') = None
   \<and> matchPattern (js ''https://a.com/x'') (ruleFor (js ''/x'') ''${12}'') = Inr (Some (js ''${12}''))"
proof (intro conjI impI)
  assume "ds \<noteq> [] \<and> (\<forall>d\<in>set ds. is_digit d)"
  then show "validateOutputTemplate (pre @ js ''${'' @ ds @ js ''}'' @ post) = None"
    by (simp add: validateOutputTemplate_digits)
next
  show "validateOutputTemplate (js ''${0}'') = None"
    using validateOutputTemplate_digits [of "js ''0''" "[]" "[]"] by (simp add: js_def is_digit_def)
next
  show "validateOutputTemplate (js ''${12}'') = None"
    using validateOutputTemplate_digits [of "js ''12''" "[]" "[]"] by (simp add: js_def is_digit_def)
next
  show "matchPattern (js ''https://a.com/x'') (ruleFor (js ''/x'') ''${0}'') = Inr (Some (js ''${0}''))"
    by (simp add: eval_defs)
next
  show "matchPattern (js ''https://a.com/x'') (ruleFor (js ''/x'') ''${12}'') = Inr (Some (js ''${12}''))"
    by (simp add: eval_defs)
qed

theorem validator_accepts_placeholders_never_rendered_witness:
  "validateOutputTemplate (js ''[${007}](x)'') = None"
proof -
  have "js ''007'' \<noteq> [] \<and> (\<forall>d\<in>set (js ''007''). is_digit d)"
    by (simp add: js_def is_digit_def)
  with validator_accepts_placeholders_never_rendered [of "js ''007''" "js ''[''" "js ''](x)''"]
  have "validateOutputTemplate (js ''['' @ js ''${'' @ js ''007'' @ js ''}'' @ js ''](x)'') = None"
    by blast
  then show ?thesis by (simp add: js_def)
qed


section \<open>The domain matcher\<close>

subsection \<open>The regular expression of an escaped domain pattern\<close>

lemma escapeDomainPattern_Nil: "escapeDomainPattern [] = []"
  by (simp add: escapeDomainPattern_def escapeSpecial_def expandWildcards_def)

lemma escapeDomainPattern_Cons:
  "escapeDomainPattern (c # d) = escapeChar c @ escapeDomainPattern d"
  by (simp add: escapeDomainPattern_def escapeSpecial_def expandWildcards_def escapeChar_def
      is_regex_special_def js_def)

lemma parseQuant_none:
  "s = [] \<or> hd s \<notin> set (js ''*+?{'') \<Longrightarrow> parseQuant s = Inr (None, 0)"
  by (cases s) (auto simp: parseQuant_def parseQuantPrefix_def js_def)

lemma escaped_hd:
  "escapeDomainPattern d = [] \<or> hd (escapeDomainPattern d) \<notin> set (js ''*+?{'')"
  by (cases d)
     (auto simp: escapeDomainPattern_Nil escapeDomainPattern_Cons escapeChar_def
        is_regex_special_def js_def)

lemma parseQuant_escaped: "parseQuant (escapeDomainPattern d) = Inr (None, 0)"
  by (rule parseQuant_none) (rule escaped_hd)

lemma tokenize_step:
  "lexTerm n g c cs = Inr (t, g', k)
   \<Longrightarrow> tokenize n g (c # cs) = bind_err (tokenize n g' (drop k cs)) (\<lambda>ts. Inr (t # ts))"
  by (simp add: bind_err_def split: sum.splits)

lemma regex_special_cases:
  "is_regex_special c \<longleftrightarrow>
     c = 0x2E \<or> c = 0x2B \<or> c = 0x3F \<or> c = 0x5E \<or> c = 0x24 \<or> c = 0x7B \<or> c = 0x7D
     \<or> c = 0x28 \<or> c = 0x29 \<or> c = 0x7C \<or> c = 0x5B \<or> c = 0x5D \<or> c = 0x5C"
  by (simp add: is_regex_special_def js_def)

lemma parseAtomEscape_special:
  "is_regex_special c \<Longrightarrow> parseAtomEscape n (c # cs) = Inr (Chr c, 1)"
  unfolding regex_special_cases
  by (elim disjE)
     (simp_all add: parseAtomEscape_def classEscape_def charEscape_def is_octal_def)

lemma lexTerm_special:
  assumes "is_regex_special c" "parseQuant cs = Inr (None, 0)"
  shows "lexTerm n g BSL (c # cs) = Inr (TTerm (Chr c), g, 1)"
  by (simp add: lexTerm_def parseAtomEscape_special [OF assms(1)] withQuant_def assms(2) applyq_def)

lemma parseQuant_star:
  "cs = [] \<or> hd cs \<notin> set (js ''*+?{'') \<Longrightarrow> parseQuant (CU CHR ''*'' # cs) = Inr (Some (0, None, True), 1)"
  by (cases cs) (auto simp: parseQuant_def parseQuantPrefix_def js_def)

lemma lexTerm_dot_star:
  assumes "cs = [] \<or> hd cs \<notin> set (js ''*+?{'')"
  shows "lexTerm n g (CU CHR ''.'') (CU CHR ''*'' # cs) = Inr (TTerm (Rep Dot 0 None True), g, 1)"
  using parseQuant_star [OF assms] by (simp add: lexTerm_def withQuant_def applyq_def)

lemma lexTerm_plain:
  assumes "\<not> is_regex_special c" "c \<noteq> CU CHR ''*''" "parseQuant cs = Inr (None, 0)"
  shows "lexTerm n g c cs = Inr (TTerm (Chr c), g, 0)"
  using assms(1,2) unfolding regex_special_cases
  by (simp add: lexTerm_def withQuant_def assms(3) applyq_def)

lemma tokenize_escaped:
  "tokenize n g (escapeDomainPattern d) = Inr (map (\<lambda>c. TTerm (domainTerm c)) d)"
proof (induction d)
  case Nil
  show ?case by (simp add: escapeDomainPattern_Nil)
next
  case (Cons c d)
  note q = parseQuant_escaped [of d]
  show ?case
  proof (cases "is_regex_special c")
    case True
    then have "c \<noteq> CU CHR ''*''" by (auto simp: regex_special_cases)
    with True show ?thesis
      using tokenize_step [OF lexTerm_special [OF True q, of n g]] Cons.IH
      by (simp add: escapeDomainPattern_Cons escapeChar_def domainTerm_def bind_err_def
          del: tokenize.simps)
  next
    case False
    show ?thesis
    proof (cases "c = CU CHR ''*''")
      case True
      with False show ?thesis
        using tokenize_step [OF lexTerm_dot_star [OF escaped_hd [of d], of n g]] Cons.IH
        by (simp add: escapeDomainPattern_Cons escapeChar_def domainTerm_def bind_err_def js_def
            del: tokenize.simps)
    next
      case star: False
      with False show ?thesis
        using tokenize_step [OF lexTerm_plain [OF False star q, of n g]] Cons.IH
        by (simp add: escapeDomainPattern_Cons escapeChar_def domainTerm_def bind_err_def
            del: tokenize.simps)
    qed
  qed
qed

lemma parseQuant_question:
  "cs = [] \<or> hd cs \<noteq> CU CHR ''?'' \<Longrightarrow> parseQuant (CU CHR ''?'' # cs) = Inr (Some (0, Some 1, True), 1)"
  by (cases cs) (auto simp: parseQuant_def parseQuantPrefix_def)

lemma tokenize_domainRegexSource:
  "tokenize n g (domainRegexSource (escapeDomainPattern d))
     = Inr (map TTerm schemeTerms @ map (\<lambda>c. TTerm (domainTerm c)) d)"
  using parseQuant_question [of "CU CHR '':'' # BSL # CU CHR ''/'' # BSL # CU CHR ''/'' # escapeDomainPattern d"]
  by (simp add: domainRegexSource_def js_def schemeTerms_def lexTerm_def parseAtomEscape_def
      classEscape_def charEscape_def is_octal_def withQuant_def applyq_def parseQuant_none
      parseQuant_escaped tokenize_escaped)

lemma build_terms:
  "build (map TTerm rs @ ts) stack alts cur = build ts stack alts (rev rs @ cur)"
  by (induction rs arbitrary: cur) simp_all

lemma build_flat: "build (map TTerm rs) [] [] [] = Inr (foldr Seq rs Empty)"
  using build_terms [of rs "[]" "[]" "[]" "[]"]
  by (simp add: mkDisjunction_def mkSeq_def)

lemma RegExp_domain:
  "\<exists>n. RegExp (domainRegexSource (escapeDomainPattern d))
     = Inr (RegExpObj n (foldr Seq (schemeTerms @ map domainTerm d) Empty))"
proof -
  have "map TTerm schemeTerms @ map (\<lambda>c. TTerm (domainTerm c)) d
      = map TTerm (schemeTerms @ map domainTerm d)"
    by simp
  then show ?thesis
    by (simp add: RegExp_def tokenize_domainRegexSource build_flat del: map_append)
qed

subsection \<open>No matcher moves backwards\<close>

text \<open>What is left of the input after a match is a suffix of what was left before it.\<close>

lemma step_rest: "y \<in> set (step P s) \<Longrightarrow> rest s = the (prev y) # rest y \<and> P (the (prev y)) \<and> caps y = caps s"
  by (auto simp: step_def split: list.splits if_splits)

lemma reset_caps_rest [simp]: "rest (reset_caps gs s) = rest s"
  by (simp add: reset_caps_def)

lemma rp_rest:
  "y \<in> set (rp f gs mn mx g s)
   \<Longrightarrow> (\<And>s y. y \<in> set (f s) \<Longrightarrow> \<exists>k. rest y = drop k (rest s))
   \<Longrightarrow> \<exists>k. rest y = drop k (rest s)"
proof (induction f gs mn mx g s arbitrary: y rule: rp.induct)
  case (1 f gs mn mx g s)
  show ?case
  proof (cases "mx = Some 0")
    case True
    with "1.prems"(1) have "y = s" by (subst (asm) rp.simps) simp
    then have "rest y = drop 0 (rest s)" by simp
    then show ?thesis by blast
  next
    case False
    let ?its = "concat (map (\<lambda>x. if mn = 0 \<and> length (rest s) \<le> length (rest x) then []
        else rp f gs (mn - 1) (map_option (\<lambda>k. k - 1) mx) g x) (f (reset_caps gs s)))"
    from "1.prems"(1) False have "y \<in> set ?its \<or> y = s"
      by (subst (asm) rp.simps) (auto simp: Let_def split: if_splits)
    then show ?thesis
    proof
      assume "y = s"
      then have "rest y = drop 0 (rest s)" by simp
      then show ?thesis by blast
    next
      assume "y \<in> set ?its"
      then obtain x where x: "x \<in> set (f (reset_caps gs s))"
        and guard: "\<not> (mn = 0 \<and> length (rest s) \<le> length (rest x))"
        and y: "y \<in> set (rp f gs (mn - 1) (map_option (\<lambda>k. k - 1) mx) g x)"
        by (auto split: if_splits)
      from "1.IH" [OF False x guard y "1.prems"(2)] obtain k where k: "rest y = drop k (rest x)"
        by blast
      from "1.prems"(2) [OF x] obtain j where "rest x = drop j (rest s)" by auto
      with k have "rest y = drop (j + k) (rest s)" by (simp add: add.commute)
      then show ?thesis by blast
    qed
  qed
qed

lemma m_rest: "y \<in> set (m r s) \<Longrightarrow> \<exists>k. rest y = drop k (rest s)"
proof (induction r arbitrary: s y)
  case Empty
  then have "rest y = drop 0 (rest s)" by simp
  then show ?case by blast
next
  case (Chr c)
  then have "rest y = drop 1 (rest s)" by (auto dest!: step_rest)
  then show ?case by blast
next
  case Dot
  then have "rest y = drop 1 (rest s)" by (auto dest!: step_rest)
  then show ?case by blast
next
  case (Cls neg items)
  then have "rest y = drop 1 (rest s)" by (auto dest!: step_rest)
  then show ?case by blast
next
  case (Seq a b)
  then obtain x where "x \<in> set (m a s)" "y \<in> set (m b x)" by auto
  with Seq.IH obtain j k where "rest x = drop j (rest s)" "rest y = drop k (rest x)" by blast
  then have "rest y = drop (j + k) (rest s)" by (simp add: add.commute)
  then show ?case by blast
next
  case (Alt a b)
  then show ?case by auto
next
  case (Grp n r)
  then obtain x where "x \<in> set (m r s)" "rest y = rest x" by auto
  with Grp.IH show ?case by auto
next
  case (Rep r mn mx g)
  from Rep.prems have "y \<in> set (rp (m r) (groups_of r) mn mx g s)" by simp
  then show ?case by (rule rp_rest) (rule Rep.IH)
next
  case Bol
  then have "rest y = drop 0 (rest s)" by (simp split: if_splits)
  then show ?case by blast
next
  case Eol
  then have "rest y = drop 0 (rest s)" by (simp split: if_splits)
  then show ?case by blast
next
  case (WordB b)
  then have "rest y = drop 0 (rest s)" by (simp add: Let_def split: if_splits)
  then show ?case by blast
next
  case (Look b r)
  then have "rest y = drop 0 (rest s)" by (auto split: if_splits list.splits)
  then show ?case by blast
next
  case (BackRef n)
  then have "rest y = drop 0 (rest s) \<or> (\<exists>w::jsstring. rest y = drop (length w) (rest s))"
    by (fastforce split: option.splits if_splits)
  then show ?case by blast
qed

text \<open>Hence the test of \<open>rp\<close> for an iteration that does not move forward is ECMAScript's
  test that the end position is the same.\<close>

lemma m_rest_length: "y \<in> set (m r s) \<Longrightarrow> length (rest y) \<le> length (rest s)"
  by (auto dest!: m_rest)

lemma m_same_position:
  "y \<in> set (m r s) \<Longrightarrow> length (rest s) \<le> length (rest y) \<longleftrightarrow> rest y = rest s"
proof -
  assume "y \<in> set (m r s)"
  then obtain k where k: "rest y = drop k (rest s)" by (auto dest!: m_rest)
  show ?thesis
  proof
    assume "length (rest s) \<le> length (rest y)"
    with k have "k = 0 \<or> rest s = []" by (cases "rest s") auto
    with k show "rest y = rest s" by auto
  qed simp
qed

subsection \<open>What the domain regular expression accepts\<close>

lemma m_Seq_Bol: "m (Seq Bol R) s \<noteq> [] \<longleftrightarrow> prev s = None \<and> m R s \<noteq> []"
  by simp

lemma m_Seq_Chr:
  "m (Seq (Chr c) R) s \<noteq> [] \<longleftrightarrow> (\<exists>xs. rest s = c # xs \<and> m R (MState (Some c) xs (caps s)) \<noteq> [])"
  by (cases "rest s") (auto simp: step_def)

lemma m_optional_Chr:
  "m (Rep (Chr c) 0 (Some (Suc 0)) True) s
     = (case rest s of
          [] \<Rightarrow> [s]
        | x # xs \<Rightarrow> if x = c then [MState (Some c) xs (caps s), s] else [s])"
  by (cases s) (auto simp: rp.simps [of _ _ _ "Some (Suc 0)"] rp.simps [of _ _ _ "Some 0"]
      reset_caps_def step_def Let_def split: list.splits)

lemma m_Seq_optional_Chr:
  "m (Seq (Rep (Chr c) 0 (Some (Suc 0)) True) R) s \<noteq> [] \<longleftrightarrow>
     (\<exists>xs. rest s = c # xs \<and> m R (MState (Some c) xs (caps s)) \<noteq> []) \<or> m R s \<noteq> []"
  unfolding m.simps(5) m_optional_Chr by (auto split: list.splits)

lemma scheme_accepts:
  assumes "m (foldr Seq (schemeTerms @ X) Empty) (MState None url cs) \<noteq> []"
  shows "\<exists>r p. (url = js ''http://'' @ r \<or> url = js ''https://'' @ r)
           \<and> m (foldr Seq X Empty) (MState p r cs) \<noteq> []"
  using assms
  by (simp add: schemeTerms_def m_Seq_Bol m_Seq_Chr m_Seq_optional_Chr js_def del: m.simps) blast

lemma domain_accepts:
  "m (foldr Seq (map domainTerm d) Empty) s \<noteq> [] \<Longrightarrow> wildcardPrefix d (rest s)"
proof (induction d arbitrary: s)
  case Nil
  show ?case by simp
next
  case (Cons c d)
  from Cons.prems obtain y where y: "y \<in> set (m (domainTerm c) s)"
    and more: "m (foldr Seq (map domainTerm d) Empty) y \<noteq> []"
    by auto
  from Cons.IH [OF more] have tail: "wildcardPrefix d (rest y)" .
  show ?case
  proof (cases "c = CU CHR ''*''")
    case True
    from m_rest [OF y] obtain k where k: "rest y = drop k (rest s)" by blast
    let ?k = "min k (length (rest s))"
    have "drop ?k (rest s) = drop k (rest s)" by (simp add: min_def)
    with k tail have "wildcardPrefix d (drop ?k (rest s))" by simp
    moreover have "?k \<in> set [0..<Suc (length (rest s))]" by auto
    ultimately have "list_ex (\<lambda>k. wildcardPrefix d (drop k (rest s))) [0..<Suc (length (rest s))]"
      unfolding list_ex_iff by blast
    with True show ?thesis by simp
  next
    case False
    with y have "rest s = c # rest y" by (auto simp: domainTerm_def dest!: step_rest)
    with False tail show ?thesis by simp
  qed
qed

lemma search_anchored:
  "ast re = Seq Bol R \<Longrightarrow> search re (Some x) s = None"
  by (induction s arbitrary: x) simp_all

lemma test_anchored:
  assumes "ast re = Seq Bol R" "test re url"
  shows "m (Seq Bol R) (MState None url (replicate (Suc (ncap re)) None)) \<noteq> []"
  using assms
  by (cases url) (auto simp: test_def exec_def search_anchored simp del: m.simps split: list.splits)

lemma domainRegex_accepts:
  assumes "RegExp (domainRegexSource (escapeDomainPattern d)) = Inr re" "test re url"
  shows "\<exists>r. (url = js ''http://'' @ r \<or> url = js ''https://'' @ r) \<and> wildcardPrefix d r"
proof -
  from RegExp_domain [of d] assms(1) obtain n where
    re: "re = RegExpObj n (foldr Seq (schemeTerms @ map domainTerm d) Empty)"
    by auto
  obtain R where R: "foldr Seq (schemeTerms @ map domainTerm d) Empty = Seq Bol R"
    by (simp add: schemeTerms_def)
  with re have "ast re = Seq Bol R" by simp
  from test_anchored [OF this assms(2)] R re
  have "m (foldr Seq (schemeTerms @ map domainTerm d) Empty) (MState None url (replicate (Suc n) None)) \<noteq> []"
    by simp
  from scheme_accepts [OF this] obtain r p where
    r: "url = js ''http://'' @ r \<or> url = js ''https://'' @ r"
    and "m (foldr Seq (map domainTerm d) Empty) (MState p r (replicate (Suc n) None)) \<noteq> []"
    by blast
  from domain_accepts [OF this(2)] have "wildcardPrefix d r" by simp
  with r show ?thesis by blast
qed

lemma matchPattern_gate:
  assumes "matchPattern url p \<noteq> Inr None"
  shows "\<exists>re. RegExp (domainRegexSource (escapeDomainPattern (domainPattern p))) = Inr re \<and> test re url"
proof -
  from RegExp_domain [of "domainPattern p"] obtain re where
    re: "RegExp (domainRegexSource (escapeDomainPattern (domainPattern p))) = Inr re"
    by blast
  have "test re url"
  proof (rule ccontr)
    assume "\<not> test re url"
    with re have "matchPattern url p = Inr None"
      by (simp add: matchPattern_def bind_err_def Let_def)
    with assms show False by simp
  qed
  with re show ?thesis by blast
qed

text \<open>
  C6.  A rule matches a URL only if the URL is \<open>http://\<close> or \<open>https://\<close> followed by a
  remainder that starts with the rule's domain pattern, \<open>*\<close> standing for any sequence of
  characters and every other character of the pattern for itself; hence \<open>formatLink\<close>
  returns null for a candidate that starts with neither \<open>http://\<close> nor \<open>https://\<close>.
\<close>

theorem match_requires_scheme_and_domain_prefix:
  "(matchPattern url p = Inr (Some out)
      \<longrightarrow> (\<exists>r. (url = js ''http://'' @ r \<or> url = js ''https://'' @ r)
                \<and> wildcardPrefix (domainPattern p) r))
   \<and> (\<not> prefix (js ''http://'') url \<and> \<not> prefix (js ''https://'') url
      \<longrightarrow> formatLink url patterns = Inr None)"
proof (intro conjI impI)
  assume "matchPattern url p = Inr (Some out)"
  then have "matchPattern url p \<noteq> Inr None" by simp
  from matchPattern_gate [OF this] obtain re where
    "RegExp (domainRegexSource (escapeDomainPattern (domainPattern p))) = Inr re" "test re url"
    by blast
  then show "\<exists>r. (url = js ''http://'' @ r \<or> url = js ''https://'' @ r)
      \<and> wildcardPrefix (domainPattern p) r"
    by (rule domainRegex_accepts)
next
  assume scheme: "\<not> prefix (js ''http://'') url \<and> \<not> prefix (js ''https://'') url"
  have "matchPattern url q = Inr None" for q
  proof (rule ccontr)
    assume "matchPattern url q \<noteq> Inr None"
    from matchPattern_gate [OF this] obtain re where
      "RegExp (domainRegexSource (escapeDomainPattern (domainPattern q))) = Inr re" "test re url"
      by blast
    then have "\<exists>r. (url = js ''http://'' @ r \<or> url = js ''https://'' @ r)
        \<and> wildcardPrefix (domainPattern q) r"
      by (rule domainRegex_accepts)
    with scheme show False by (auto simp: prefix_def)
  qed
  then have "tryPatterns url patterns = Inr None" by (simp add: tryPatterns_no_match)
  then show "formatLink url patterns = Inr None" by (simp add: formatLink_def)
qed

theorem match_requires_scheme_and_domain_prefix_witness:
  "matchPattern (js ''https://x.atlassian.net/browse/DEV-1'') jiraPreset
     = Inr (Some (js ''[DEV-1](https://x.atlassian.net/browse/DEV-1)''))
   \<and> wildcardPrefix (js ''*.atlassian.net'') (js ''x.atlassian.net/browse/DEV-1'')
   \<and> formatLink (js ''ftp://x.atlassian.net/browse/DEV-1'') [jiraPreset] = Inr None"
proof -
  have mp: "matchPattern (js ''https://x.atlassian.net/browse/DEV-1'') jiraPreset
      = Inr (Some (js ''[DEV-1](https://x.atlassian.net/browse/DEV-1)''))"
    by (simp add: eval_defs)
  from match_requires_scheme_and_domain_prefix
         [where url = "js ''https://x.atlassian.net/browse/DEV-1''" and p = jiraPreset
            and out = "js ''[DEV-1](https://x.atlassian.net/browse/DEV-1)''"] mp
  obtain r where r: "js ''https://x.atlassian.net/browse/DEV-1'' = js ''http://'' @ r
        \<or> js ''https://x.atlassian.net/browse/DEV-1'' = js ''https://'' @ r"
    and w: "wildcardPrefix (domainPattern jiraPreset) r"
    by blast
  from r have "r = js ''x.atlassian.net/browse/DEV-1''" by (simp add: js_def)
  with w have w': "wildcardPrefix (js ''*.atlassian.net'') (js ''x.atlassian.net/browse/DEV-1'')"
    by (simp add: jiraPreset_def)
  have "\<not> prefix (js ''http://'') (js ''ftp://x.atlassian.net/browse/DEV-1'')
      \<and> \<not> prefix (js ''https://'') (js ''ftp://x.atlassian.net/browse/DEV-1'')"
    by (simp add: js_def)
  with match_requires_scheme_and_domain_prefix
         [where url = "js ''ftp://x.atlassian.net/browse/DEV-1''" and patterns = "[jiraPreset]"]
  have "formatLink (js ''ftp://x.atlassian.net/browse/DEV-1'') [jiraPreset] = Inr None"
    by blast
  with mp w' show ?thesis by blast
qed

end
